theory Spec2Isabelle
  imports Complex_Main
begin

section \<open>The RRD connector of facette (pkg/connector/rrd.go)\<close>

text \<open>
  A shallow embedding of \<^verbatim>\<open>pkg/connector/rrd.go\<close>: the connector factory, the
  catalog refresh, the query compiler and executor \<^verbatim>\<open>rrdGetData\<close>, the statistics
  request builder \<^verbatim>\<open>rrdSetGraph\<close> and the result merger \<^verbatim>\<open>rrdParseInfo\<close>.
  Go maps are partial functions, slices are lists, a pointer that may be nil is an
  \<open>option\<close>, and every panic or returned error is a value of type \<open>error\<close>.
\<close>

subsection \<open>Go library functions used by the connector\<close>

text \<open>Errors: \<^verbatim>\<open>fmt.Errorf\<close> values, errors handed back by the rrd library or the
  directory walker, and the run-time panics of Go.\<close>

datatype error =
    Errorf string
  | EngineError string
  | PanicNilDereference
  | PanicIndexOutOfRange
  | PanicSliceBounds
  | PanicRegexp

text \<open>\<^verbatim>\<open>float64\<close>: a finite value is modelled by the real number it denotes; the
  three special values are kept apart. Rounding of arithmetic results is not modelled.\<close>

datatype float64 = Finite real | PosInf | NegInf | NaN

definition digit_char :: "nat \<Rightarrow> char" where
  "digit_char d = ''0123456789'' ! d"

fun digits :: "nat \<Rightarrow> string" where
  "digits n = (if n < 10 then [digit_char n] else digits (n div 10) @ [digit_char (n mod 10)])"

declare digits.simps [simp del]

text \<open>\<^verbatim>\<open>strconv.Itoa\<close> and the verb \<^verbatim>\<open>%d\<close>.\<close>

definition Itoa :: "int \<Rightarrow> string" where
  "Itoa i = (if i < 0 then CHR ''-'' # digits (nat (- i)) else digits (nat i))"

text \<open>\<^verbatim>\<open>strings.Join\<close>.\<close>

fun Join :: "string list \<Rightarrow> string \<Rightarrow> string" where
  "Join [] sep = []"
| "Join [a] sep = a"
| "Join (a # b # rest) sep = a @ sep @ Join (b # rest) sep"

text \<open>\<^verbatim>\<open>strings.SplitN\<close> for a one-character separator and a count \<open>n \<ge> 0\<close>: at most
  \<open>n\<close> pieces, the last one the unsplit remainder.\<close>

fun SplitN :: "string \<Rightarrow> char \<Rightarrow> nat \<Rightarrow> string list" where
  "SplitN s sep 0 = []"
| "SplitN s sep (Suc 0) = [s]"
| "SplitN s sep (Suc (Suc n)) =
     (if sep \<in> set s
      then takeWhile (\<lambda>c. c \<noteq> sep) s # SplitN (tl (dropWhile (\<lambda>c. c \<noteq> sep) s)) sep (Suc n)
      else [s])"

text \<open>Rounding to the nearest integer, ties to even: the rounding of
  \<^verbatim>\<open>strconv.FormatFloat\<close>, which rounds the exact value of its argument.\<close>

definition round_half_even :: "real \<Rightarrow> int" where
  "round_half_even y =
     (let f = \<lfloor>y\<rfloor>; d = y - of_int f in
      if d < 1 / 2 then f else if 1 / 2 < d then f + 1 else if even f then f else f + 1)"

definition pad_zeros :: "nat \<Rightarrow> string \<Rightarrow> string" where
  "pad_zeros w s = replicate (w - length s) CHR ''0'' @ s"

text \<open>The verb \<^verbatim>\<open>%.<prec>f\<close> of \<^verbatim>\<open>fmt.Sprintf\<close> (\<^verbatim>\<open>%f\<close> is \<open>prec = 6\<close>).\<close>

definition Sprintf_f :: "nat \<Rightarrow> float64 \<Rightarrow> string" where
  "Sprintf_f prec x =
     (case x of
        NaN \<Rightarrow> ''NaN''
      | PosInf \<Rightarrow> ''+Inf''
      | NegInf \<Rightarrow> ''-Inf''
      | Finite r \<Rightarrow>
          (let n = nat (round_half_even (\<bar>r\<bar> * 10 ^ prec));
               whole = digits (n div 10 ^ prec);
               frac = pad_zeros prec (digits (n mod 10 ^ prec))
           in (if r < 0 then ''-'' else '''') @ whole @ (if prec = 0 then '''' else ''.'' @ frac)))"

text \<open>The conversion \<^verbatim>\<open>int(x)\<close> of a \<^verbatim>\<open>float64\<close>: truncation towards zero when the
  result fits 64 bits. Go leaves the other cases to the implementation; amd64 yields
  the least 64-bit integer.\<close>

definition truncate_real :: "real \<Rightarrow> int" where
  "truncate_real r = (if 0 \<le> r then \<lfloor>r\<rfloor> else \<lceil>r\<rceil>)"

definition int_of_float64 :: "float64 \<Rightarrow> int" where
  "int_of_float64 x =
     (case x of
        Finite r \<Rightarrow>
          (if - (2 ^ 63) \<le> truncate_real r \<and> truncate_real r < 2 ^ 63 then truncate_real r
           else - (2 ^ 63))
      | _ \<Rightarrow> - (2 ^ 63))"

definition float64_of_int :: "int \<Rightarrow> float64" where
  "float64_of_int i = Finite (of_int i)"

fun float64_sub :: "float64 \<Rightarrow> float64 \<Rightarrow> float64" where
  "float64_sub (Finite a) (Finite b) = Finite (a - b)"
| "float64_sub NaN y = NaN"
| "float64_sub x NaN = NaN"
| "float64_sub PosInf PosInf = NaN"
| "float64_sub NegInf NegInf = NaN"
| "float64_sub PosInf y = PosInf"
| "float64_sub NegInf y = NegInf"
| "float64_sub (Finite a) PosInf = NegInf"
| "float64_sub (Finite a) NegInf = PosInf"

subsection \<open>The data model\<close>

record rrdMetric =
  Dataset :: string
  FilePath :: string

type_synonym catalog = "string \<rightharpoonup> (string \<rightharpoonup> rrdMetric)"

text \<open>\<^verbatim>\<open>RRDConnector\<close>; \<open>outputChan\<close> is the address of the caller's channel.\<close>

record RRDConnector =
  Path :: string
  Pattern :: string
  Daemon :: string
  outputChan :: nat
  metrics :: catalog

text \<open>A value of type \<^verbatim>\<open>interface{}\<close> in a configuration map.\<close>

datatype iface = INil | IString string | IInt int | IBool bool

text \<open>\<^verbatim>\<open>types.PlotValue\<close> is a \<^verbatim>\<open>float64\<close>; \<^verbatim>\<open>PlotResult\<close> holds the samples and the
  statistics of one label.\<close>

record PlotResult =
  Plots :: "float64 list"
  Info :: "string \<rightharpoonup> float64"

type_synonym plots = "string \<rightharpoonup> PlotResult"

subsection \<open>The connector factory (\<^verbatim>\<open>init\<close>, lines 32-63)\<close>

definition Connectors_rrd :: "nat \<Rightarrow> (string \<rightharpoonup> iface) \<Rightarrow> error + RRDConnector" where
  "Connectors_rrd outChan config =
     (if config ''path'' = None then Inl (Errorf ''missing `path' mandatory connector setting'')
      else if config ''pattern'' = None
        then Inl (Errorf ''missing `pattern' mandatory connector setting'')
      else
        (case config ''path'' of
           Some (IString configPath) \<Rightarrow>
             (case config ''pattern'' of
                Some (IString configPattern) \<Rightarrow>
                  (case config ''daemon'' of
                     Some (IString configDaemon) \<Rightarrow>
                       Inr \<lparr>Path = configPath, Pattern = configPattern, Daemon = configDaemon,
                            outputChan = outChan, metrics = Map.empty\<rparr>
                   | _ \<Rightarrow> Inl (Errorf ''connector setting `daemon' should be a string''))
              | _ \<Rightarrow> Inl (Errorf ''connector setting `pattern' should be a string''))
         | _ \<Rightarrow> Inl (Errorf ''connector setting `path' should be a string'')))"

subsection \<open>The result merger (\<^verbatim>\<open>rrdParseInfo\<close>, lines 359-374)\<close>

text \<open>One iteration of the loop over \<^verbatim>\<open>info.Print\<close>. \<open>ParseFloat\<close> stands for
  \<^verbatim>\<open>strconv.ParseFloat(_, 64)\<close>, \<open>None\<close> being a returned error. Reading
  \<^verbatim>\<open>chunks[2]\<close> of a shorter slice panics.\<close>

definition rrdParseInfo_line ::
  "(string \<Rightarrow> float64 option) \<Rightarrow> string \<Rightarrow> plots \<Rightarrow> error + plots" where
  "rrdParseInfo_line ParseFloat v data =
     (let chunks = SplitN v CHR '','' 3 in
      if length chunks \<le> 2 then Inl PanicIndexOutOfRange
      else
        (let chunkFloat = (case ParseFloat (chunks ! 2) of None \<Rightarrow> NaN | Some f \<Rightarrow> f);
             entry = (case data (chunks ! 0) of
                        None \<Rightarrow> \<lparr>Plots = [], Info = Map.empty\<rparr>
                      | Some pr \<Rightarrow> pr)
         in Inr (data(chunks ! 0 \<mapsto> entry\<lparr>Info := (Info entry)(chunks ! 1 \<mapsto> chunkFloat)\<rparr>))))"

fun rrdParseInfo ::
  "(string \<Rightarrow> float64 option) \<Rightarrow> string list \<Rightarrow> plots \<Rightarrow> error + plots" where
  "rrdParseInfo ParseFloat [] data = Inr data"
| "rrdParseInfo ParseFloat (v # rest) data =
     (case rrdParseInfo_line ParseFloat v data of
        Inl e \<Rightarrow> Inl e
      | Inr data' \<Rightarrow> rrdParseInfo ParseFloat rest data')"

text \<open>The number of separators of a statistic line, and what a result holds for a
  label: its sample sequence and its statistics.\<close>

definition commas :: "string \<Rightarrow> nat" where
  "commas v = length (filter (\<lambda>c. c = CHR '','') v)"

definition samples :: "plots \<Rightarrow> string \<Rightarrow> float64 list option" where
  "samples data l = map_option Plots (data l)"

definition statistic :: "plots \<Rightarrow> string \<Rightarrow> string \<Rightarrow> float64 option" where
  "statistic data l k = (case data l of None \<Rightarrow> None | Some pr \<Rightarrow> Info pr k)"

text \<open>A statistic line binds the pair (label, key) when its first two fields are the
  label and the key.\<close>

definition binds :: "string \<Rightarrow> string \<Rightarrow> string \<Rightarrow> bool" where
  "binds v l k = (case SplitN v CHR '','' 3 of a # b # _ \<Rightarrow> a = l \<and> b = k | _ \<Rightarrow> False)"

text \<open>The value the merger stores for a statistic line: the number its third field
  parses to, or the not-a-number value when it does not parse. A line mentions a label
  when the label is its first field.\<close>

definition stored_value :: "(string \<Rightarrow> float64 option) \<Rightarrow> string \<Rightarrow> float64" where
  "stored_value parse v =
     (case parse (SplitN v CHR '','' 3 ! 2) of None \<Rightarrow> NaN | Some f \<Rightarrow> f)"

definition mentions :: "string \<Rightarrow> string \<Rightarrow> bool" where
  "mentions v l = (case SplitN v CHR '','' 3 of a # b # _ \<Rightarrow> a = l | _ \<Rightarrow> False)"

text \<open>A stand-in for \<^verbatim>\<open>strconv.ParseFloat\<close> on the few texts the examples use.\<close>

definition sampleParseFloat :: "string \<Rightarrow> float64 option" where
  "sampleParseFloat s =
     (if s = ''1.5'' then Some (Finite 1.5) else if s = ''2'' then Some (Finite 2) else None)"

text \<open>A result as the export loop leaves it for one label, with one statistic already
  in place.\<close>

definition sample_plots :: plots where
  "sample_plots = [''cpu'' \<mapsto> \<lparr>Plots = [Finite 1], Info = [''last'' \<mapsto> Finite 7]\<rparr>]"

subsection \<open>The rrd library: requests handed to the engine\<close>

text \<open>A \<^verbatim>\<open>rrd.Grapher\<close> and a \<^verbatim>\<open>rrd.Exporter\<close> collect the definitions of one request in
  call order: \<^verbatim>\<open>Def(vname, rrdfile, dsname, cf)\<close>, \<^verbatim>\<open>CDef(vname, rpn)\<close>, \<^verbatim>\<open>VDef(vname, rpn)\<close>,
  \<^verbatim>\<open>Print(vname, format)\<close> and \<^verbatim>\<open>XportDef(vname, legend)\<close>.\<close>

datatype rrd_arg =
    Def string string string string
  | CDef string string
  | VDef string string
  | Print string string
  | XportDef string string

record Grapher =
  GDaemon :: string
  GArgs :: "rrd_arg list"

record Exporter =
  XDaemon :: string
  XArgs :: "rrd_arg list"

definition NewGrapher :: Grapher where
  "NewGrapher = \<lparr>GDaemon = '''', GArgs = []\<rparr>"

definition NewExporter :: Exporter where
  "NewExporter = \<lparr>XDaemon = '''', XArgs = []\<rparr>"

definition gadd :: "Grapher \<Rightarrow> rrd_arg list \<Rightarrow> Grapher" where
  "gadd g as = g\<lparr>GArgs := GArgs g @ as\<rparr>"

definition xadd :: "Exporter \<Rightarrow> rrd_arg list \<Rightarrow> Exporter" where
  "xadd x as = x\<lparr>XArgs := XArgs x @ as\<rparr>"

text \<open>The result of an export: the legends, the number of rows, the table read by
  \<^verbatim>\<open>ValueAt(legend, row)\<close>, and \<open>cvalues\<close>, the buffer the engine allocated for the table
  (\<open>None\<close> in the zero value \<^verbatim>\<open>rrd.XportResult{}\<close>).\<close>

record XportResult =
  Legends :: "string list"
  RowCnt :: nat
  ValueAt :: "nat \<Rightarrow> nat \<Rightarrow> float64"
  cvalues :: "nat option"

definition empty_XportResult :: XportResult where
  "empty_XportResult = \<lparr>Legends = [], RowCnt = 0, ValueAt = (\<lambda>_ _. NaN), cvalues = None\<rparr>"

text \<open>What lies outside the connector: the engine behind \<^verbatim>\<open>Exporter.Xport\<close> and
  \<^verbatim>\<open>Grapher.Graph\<close> (the latter gives the printed lines \<^verbatim>\<open>GraphInfo.Print\<close>), and
  \<^verbatim>\<open>strconv.ParseFloat\<close>. Times and the step are opaque integers.\<close>

record env =
  Xport :: "Exporter \<Rightarrow> int \<Rightarrow> int \<Rightarrow> int \<Rightarrow> error + (string list \<times> nat \<times> (nat \<Rightarrow> nat \<Rightarrow> float64))"
  Graph :: "Grapher \<Rightarrow> int \<Rightarrow> int \<Rightarrow> error + string list"
  ParseFloat :: "string \<Rightarrow> float64 option"

subsection \<open>Queries\<close>

text \<open>The query types are declared outside this file; the fields are those
  \<^verbatim>\<open>rrdGetData\<close> reads. \<open>MetricName\<close>, \<open>SerieName\<close> and \<open>SerieScale\<close> are the fields
  \<^verbatim>\<open>Name\<close>, \<^verbatim>\<open>Name\<close> and \<^verbatim>\<open>Scale\<close> of a metric and of a serie; \<open>Metric\<close> is a pointer.\<close>

record MetricQuery =
  SourceName :: string
  MetricName :: string

record SerieQuery =
  SerieName :: string
  Metric :: "MetricQuery option"
  SerieScale :: float64

datatype OperGroupType =
    OperGroupTypeNone
  | OperGroupTypeAvg
  | OperGroupTypeSum
  | OperGroupTypeOther int

record GroupQuery =
  Name :: string
  Type :: OperGroupType
  Series :: "SerieQuery list"
  Scale :: float64

subsection \<open>The statistics request builder (\<^verbatim>\<open>rrdSetGraph\<close>, lines 376-403)\<close>

text \<open>The body of the loop over the percentiles, lines 390-401.\<close>

definition rrdSetGraph_percentile :: "string \<Rightarrow> string \<Rightarrow> nat \<Rightarrow> float64 \<Rightarrow> rrd_arg list" where
  "rrdSetGraph_percentile serieName itemName index percentile =
     [CDef (serieName @ ''-cdef'' @ Itoa (int index)) (serieName @ '',UN,0,'' @ serieName @ '',IF''),
      VDef (serieName @ ''-vdef'' @ Itoa (int index))
        (serieName @ ''-cdef'' @ Itoa (int index) @ '','' @ Sprintf_f 6 percentile @ '',PERCENT''),
      (if float64_sub percentile (float64_of_int (int_of_float64 percentile)) \<noteq> Finite 0
       then Print (serieName @ ''-vdef'' @ Itoa (int index))
              (itemName @ '','' @ Sprintf_f 2 percentile @ ''th,%lf'')
       else Print (serieName @ ''-vdef'' @ Itoa (int index))
              (itemName @ '','' @ Sprintf_f 0 percentile @ ''th,%lf''))]"

fun rrdSetGraph_percentiles :: "string \<Rightarrow> string \<Rightarrow> nat \<Rightarrow> float64 list \<Rightarrow> rrd_arg list" where
  "rrdSetGraph_percentiles serieName itemName index [] = []"
| "rrdSetGraph_percentiles serieName itemName index (percentile # rest) =
     rrdSetGraph_percentile serieName itemName index percentile @
     rrdSetGraph_percentiles serieName itemName (Suc index) rest"

definition rrdSetGraph :: "Grapher \<Rightarrow> string \<Rightarrow> string \<Rightarrow> float64 list \<Rightarrow> Grapher" where
  "rrdSetGraph graph serieName itemName percentiles =
     gadd graph
       ([VDef (serieName @ ''-min'') (serieName @ '',MINIMUM''),
         Print (serieName @ ''-min'') (itemName @ '',min,%lf''),
         VDef (serieName @ ''-avg'') (serieName @ '',AVERAGE''),
         Print (serieName @ ''-avg'') (itemName @ '',avg,%lf''),
         VDef (serieName @ ''-max'') (serieName @ '',MAXIMUM''),
         Print (serieName @ ''-max'') (itemName @ '',max,%lf''),
         VDef (serieName @ ''-last'') (serieName @ '',LAST''),
         Print (serieName @ ''-last'') (itemName @ '',last,%lf'')]
        @ rrdSetGraph_percentiles serieName itemName 0 percentiles)"

subsection \<open>The query compiler and executor (\<^verbatim>\<open>rrdGetData\<close>, lines 160-357)\<close>

text \<open>\<^verbatim>\<open>connector.metrics[source][name]\<close>: reading a missing key of a map, also of a nil
  inner map, gives the nil pointer; selecting a field of it panics.\<close>

definition lookup_metric :: "RRDConnector \<Rightarrow> MetricQuery \<Rightarrow> rrdMetric option" where
  "lookup_metric connector mq =
     (case metrics connector (SourceName mq) of None \<Rightarrow> None | Some ms \<Rightarrow> ms (MetricName mq))"

text \<open>A serie is resolvable when its metric pointer is set and the catalog holds the
  metric.\<close>

definition resolvable :: "RRDConnector \<Rightarrow> SerieQuery \<Rightarrow> bool" where
  "resolvable connector serie =
     (case Metric serie of None \<Rightarrow> False | Some mq \<Rightarrow> lookup_metric connector mq \<noteq> None)"

text \<open>The local variables of the compilation. \<open>xport\<close> is touched only when \<open>infoOnly\<close>
  is false, where the code has allocated it.\<close>

record build =
  graph :: Grapher
  xport :: Exporter
  series :: "string \<rightharpoonup> string"
  stack :: "string list"
  count :: int

text \<open>A definition with an optional multiplication (lines 211-221, 235-245, 298-302,
  311-315): \<^verbatim>\<open>CDef(name, "<src>,<scale>,*")\<close> when the scale is not zero.\<close>

definition scaled_cdef :: "string \<Rightarrow> string \<Rightarrow> float64 \<Rightarrow> rrd_arg" where
  "scaled_cdef name src scale =
     (if scale \<noteq> Finite 0 then CDef name (src @ '','' @ Sprintf_f 6 scale @ '',*'')
      else CDef name src)"

text \<open>The three definitions of a serie in no-aggregation mode, sent to the grapher
  (lines 204-221) and to the exporter (lines 228-245).\<close>

definition none_args :: "string \<Rightarrow> rrdMetric \<Rightarrow> SerieQuery \<Rightarrow> GroupQuery \<Rightarrow> rrd_arg list" where
  "none_args serieTemp m serie query =
     [Def (serieTemp @ ''-orig0'') (FilePath m) (Dataset m) ''AVERAGE'',
      scaled_cdef (serieTemp @ ''-orig1'') (serieTemp @ ''-orig0'') (SerieScale serie),
      scaled_cdef serieTemp (serieTemp @ ''-orig1'') (Scale query)]"

text \<open>The loop of \<^verbatim>\<open>case OperGroupTypeNone\<close>, lines 194-252.\<close>

fun none_loop ::
  "RRDConnector \<Rightarrow> GroupQuery \<Rightarrow> float64 list \<Rightarrow> bool \<Rightarrow> SerieQuery list \<Rightarrow> build \<Rightarrow> error + build"
where
  "none_loop connector query percentiles infoOnly [] b = Inr b"
| "none_loop connector query percentiles infoOnly (serie # rest) b =
     (case Metric serie of
        None \<Rightarrow> none_loop connector query percentiles infoOnly rest b
      | Some mq \<Rightarrow>
          (case lookup_metric connector mq of
             None \<Rightarrow> Inl PanicNilDereference
           | Some m \<Rightarrow>
               (let serieTemp = ''serie'' @ Itoa (count b);
                    serieName = SerieName serie;
                    g = rrdSetGraph (gadd (graph b) (none_args serieTemp m serie query))
                          serieTemp serieName percentiles;
                    x = (if \<not> infoOnly
                         then xadd (xport b)
                                (none_args serieTemp m serie query @ [XportDef serieTemp serieTemp])
                         else xport b)
                in none_loop connector query percentiles infoOnly rest
                     (b\<lparr>graph := g, xport := x,
                        series := (series b)(serieTemp \<mapsto> serieName),
                        count := count b + 1\<rparr>))))"

text \<open>The two definitions of a serie in Sum/Avg mode (lines 265-283): the raw dataset,
  and the same with the unknown value replaced by zero.\<close>

definition agg_args :: "string \<Rightarrow> rrdMetric \<Rightarrow> rrd_arg list" where
  "agg_args serieTemp m =
     [Def (serieTemp @ ''-ori'') (FilePath m) (Dataset m) ''AVERAGE'',
      CDef serieTemp (serieTemp @ ''-ori,UN,0,'' @ serieTemp @ ''-ori,IF'')]"

text \<open>The loop of \<^verbatim>\<open>case OperGroupTypeAvg, OperGroupTypeSum\<close>, lines 258-290; \<open>index\<close>
  is the position of the serie in \<^verbatim>\<open>query.Series\<close>.\<close>

fun agg_loop ::
  "RRDConnector \<Rightarrow> bool \<Rightarrow> string \<Rightarrow> nat \<Rightarrow> SerieQuery list \<Rightarrow> build \<Rightarrow> error + build"
where
  "agg_loop connector infoOnly serieName index [] b = Inr b"
| "agg_loop connector infoOnly serieName index (serie # rest) b =
     (case Metric serie of
        None \<Rightarrow> agg_loop connector infoOnly serieName (Suc index) rest b
      | Some mq \<Rightarrow>
          (case lookup_metric connector mq of
             None \<Rightarrow> Inl PanicNilDereference
           | Some m \<Rightarrow>
               (let serieTemp = serieName @ ''-tmp'' @ Itoa (int index);
                    g = gadd (graph b) (agg_args serieTemp m);
                    x = (if \<not> infoOnly then xadd (xport b) (agg_args serieTemp m) else xport b);
                    st = (if length (stack b) = 0 then stack b @ [serieTemp]
                          else stack b @ [serieTemp, ''+''])
                in agg_loop connector infoOnly serieName (Suc index) rest
                     (b\<lparr>graph := g, xport := x, stack := st\<rparr>))))"

text \<open>Lines 167-169: a query of one serie loses its aggregation type. The assignment
  goes through the pointer \<^verbatim>\<open>query\<close>, so it changes the caller's query.\<close>

definition collapse_type :: "GroupQuery \<Rightarrow> GroupQuery" where
  "collapse_type q =
     (if Type q \<noteq> OperGroupTypeNone \<and> length (Series q) = 1
      then q\<lparr>Type := OperGroupTypeNone\<rparr> else q)"

text \<open>Lines 171-325: the construction of the two requests for a checked query.\<close>

definition rrdGetData_build ::
  "RRDConnector \<Rightarrow> GroupQuery \<Rightarrow> float64 list \<Rightarrow> bool \<Rightarrow> error + build" where
  "rrdGetData_build conn q percentiles infoOnly =
     (let graph0 = (if Daemon conn \<noteq> ''''
                    then NewGrapher\<lparr>GDaemon := Daemon conn\<rparr> else NewGrapher);
          xport0 = (if \<not> infoOnly \<and> Daemon conn \<noteq> ''''
                    then NewExporter\<lparr>XDaemon := Daemon conn\<rparr> else NewExporter);
          b0 = \<lparr>graph = graph0, xport = xport0, series = Map.empty, stack = [], count = 0\<rparr>
      in
        (case Type q of
           OperGroupTypeNone \<Rightarrow> none_loop conn q percentiles infoOnly (Series q) b0
         | OperGroupTypeOther n \<Rightarrow>
             Inl (Errorf (''unknown `'' @ Itoa n @ [CHR 0x27] @ '' operator type''))
         | _ \<Rightarrow>
             (let serieName = ''serie'' @ Itoa (count b0);
                  b1 = b0\<lparr>count := count b0 + 1\<rparr>
              in
                (case agg_loop conn infoOnly serieName 0 (Series q) b1 of
                   Inl e \<Rightarrow> Inl e
                 | Inr b2 \<Rightarrow>
                     (let st = (if Type q = OperGroupTypeAvg
                                then stack b2 @ [Itoa (int (length (Series q))), ''/'']
                                else stack b2);
                          fin = [CDef (serieName @ ''-orig'') (Join st '',''),
                                 scaled_cdef serieName (serieName @ ''-orig'') (Scale q)];
                          g = rrdSetGraph (gadd (graph b2) fin) serieName (Name q) percentiles;
                          x = (if \<not> infoOnly
                               then xadd (xport b2) (fin @ [XportDef serieName serieName])
                               else xport b2)
                      in Inr (b2\<lparr>graph := g, xport := x, stack := st,
                                  series := (series b2)(serieName \<mapsto> Name q)\<rparr>))))))"

text \<open>Lines 165-325. The second component is the caller's query as the function
  leaves it.\<close>

definition rrdGetData_compile ::
  "RRDConnector \<Rightarrow> GroupQuery \<Rightarrow> float64 list \<Rightarrow> bool \<Rightarrow> (error + build) \<times> GroupQuery" where
  "rrdGetData_compile conn q percentiles infoOnly =
     (if length (Series q) = 0 then (Inl (Errorf ''group has no series''), q)
      else (rrdGetData_build conn (collapse_type q) percentiles infoOnly, collapse_type q))"

text \<open>The memory a query run can reach: the caller's query and the connector (both
  passed by pointer), and the result buffers held by the engine: \<open>buffers\<close> lists the
  live ones, \<open>allocated\<close> counts the allocations so far.\<close>

record memory =
  query :: GroupQuery
  connector :: RRDConnector
  buffers :: "nat list"
  allocated :: nat

text \<open>\<^verbatim>\<open>Exporter.Xport\<close>: on success the engine hands back a table in a fresh buffer.\<close>

definition rrd_Xport ::
  "env \<Rightarrow> Exporter \<Rightarrow> int \<Rightarrow> int \<Rightarrow> int \<Rightarrow> memory \<Rightarrow> (error + XportResult) \<times> memory" where
  "rrd_Xport e x startTime endTime step mem =
     (case Xport e x startTime endTime step of
        Inl err \<Rightarrow> (Inl err, mem)
      | Inr (legends, rows, tbl) \<Rightarrow>
          (Inr \<lparr>Legends = legends, RowCnt = rows, ValueAt = tbl, cvalues = Some (allocated mem)\<rparr>,
           mem\<lparr>buffers := allocated mem # buffers mem, allocated := Suc (allocated mem)\<rparr>))"

text \<open>\<^verbatim>\<open>XportResult.FreeValues\<close>: releases the buffer of the result it is called on;
  freeing the null pointer of the zero value does nothing.\<close>

definition FreeValues :: "XportResult \<Rightarrow> memory \<Rightarrow> memory" where
  "FreeValues r mem =
     (case cvalues r of None \<Rightarrow> mem | Some b \<Rightarrow> mem\<lparr>buffers := removeAll b (buffers mem)\<rparr>)"

text \<open>\<^verbatim>\<open>series[serieName]\<close>: a missing key reads as the empty string.\<close>

definition series_label :: "(string \<rightharpoonup> string) \<Rightarrow> string \<Rightarrow> string" where
  "series_label sm n = (case sm n of None \<Rightarrow> '''' | Some l \<Rightarrow> l)"

text \<open>The loop over \<^verbatim>\<open>data.Legends\<close>, lines 336-343.\<close>

fun merge_legends ::
  "(string \<rightharpoonup> string) \<Rightarrow> XportResult \<Rightarrow> nat \<Rightarrow> string list \<Rightarrow> plots \<Rightarrow> plots" where
  "merge_legends sm data index [] result = result"
| "merge_legends sm data index (serieName # rest) result =
     merge_legends sm data (Suc index) rest
       (result(series_label sm serieName \<mapsto>
          \<lparr>Plots = map (\<lambda>i. ValueAt data index i) [0..<RowCnt data], Info = Map.empty\<rparr>))"

text \<open>Lines 346-356. \<open>outer\<close> is the variable \<^verbatim>\<open>data\<close> declared at line 328; the result
  of the export lives in a second variable \<^verbatim>\<open>data\<close>, declared by \<^verbatim>\<open>:=\<close> at line 331 inside
  the \<^verbatim>\<open>if\<close> block, so line 354 calls \<^verbatim>\<open>FreeValues\<close> on \<open>outer\<close>.\<close>

definition rrdGetData_finish ::
  "env \<Rightarrow> build \<Rightarrow> int \<Rightarrow> int \<Rightarrow> XportResult \<Rightarrow> plots \<Rightarrow> memory \<Rightarrow> (error + plots) \<times> memory" where
  "rrdGetData_finish e b startTime endTime outer result mem =
     (case Graph e (graph b) startTime endTime of
        Inl err \<Rightarrow> (Inl err, mem)
      | Inr graphInfo \<Rightarrow>
          (case rrdParseInfo (ParseFloat e) graphInfo result of
             Inl p \<Rightarrow> (Inl p, mem)
           | Inr result' \<Rightarrow> (Inr result', FreeValues outer mem)))"

definition rrdGetData ::
  "env \<Rightarrow> int \<Rightarrow> int \<Rightarrow> int \<Rightarrow> float64 list \<Rightarrow> bool \<Rightarrow> memory \<Rightarrow> (error + plots) \<times> memory" where
  "rrdGetData e startTime endTime step percentiles infoOnly mem =
     (case rrdGetData_compile (connector mem) (query mem) percentiles infoOnly of
        (Inl err, q) \<Rightarrow> (Inl err, mem\<lparr>query := q\<rparr>)
      | (Inr b, q) \<Rightarrow>
          (let mem1 = mem\<lparr>query := q\<rparr>;
               outer = empty_XportResult
           in if \<not> infoOnly then
                (case rrd_Xport e (xport b) startTime endTime step mem1 of
                   (Inl err, mem2) \<Rightarrow> (Inl err, mem2)
                 | (Inr data, mem2) \<Rightarrow>
                     rrdGetData_finish e b startTime endTime outer
                       (merge_legends (series b) data 0 (Legends data) Map.empty) mem2)
              else rrdGetData_finish e b startTime endTime outer Map.empty mem1))"

text \<open>\<^verbatim>\<open>GetPlots\<close>, lines 66-70.\<close>

definition GetPlots ::
  "env \<Rightarrow> int \<Rightarrow> int \<Rightarrow> int \<Rightarrow> float64 list \<Rightarrow> memory \<Rightarrow> (error + plots) \<times> memory" where
  "GetPlots e startTime endTime step percentiles mem =
     rrdGetData e startTime endTime step percentiles False mem"

subsection \<open>Sample inputs\<close>

text \<open>A catalog with two metrics of one source, three series (the last one with no
  metric), and an engine that answers every export with one column of two rows and
  every graph request with one statistic line.\<close>

definition sample_catalog :: catalog where
  "sample_catalog =
     [''host1'' \<mapsto>
        [''cpu/value'' \<mapsto> \<lparr>Dataset = ''value'', FilePath = ''/var/lib/rrd/host1/cpu.rrd''\<rparr>,
         ''mem/value'' \<mapsto> \<lparr>Dataset = ''value'', FilePath = ''/var/lib/rrd/host1/mem.rrd''\<rparr>]]"

definition sample_connector :: RRDConnector where
  "sample_connector =
     \<lparr>Path = ''/var/lib/rrd'', Pattern = ''(?P<source>[^/]+)/(?P<metric>.+).rrd'',
      Daemon = '''', outputChan = 0, metrics = sample_catalog\<rparr>"

definition cpu_serie :: SerieQuery where
  "cpu_serie = \<lparr>SerieName = ''cpu'',
      Metric = Some \<lparr>SourceName = ''host1'', MetricName = ''cpu/value''\<rparr>, SerieScale = Finite 0\<rparr>"

definition mem_serie :: SerieQuery where
  "mem_serie = \<lparr>SerieName = ''mem'',
      Metric = Some \<lparr>SourceName = ''host1'', MetricName = ''mem/value''\<rparr>, SerieScale = Finite 0\<rparr>"

definition gone_serie :: SerieQuery where
  "gone_serie = \<lparr>SerieName = ''gone'', Metric = None, SerieScale = Finite 0\<rparr>"

definition sample_query :: "OperGroupType \<Rightarrow> SerieQuery list \<Rightarrow> GroupQuery" where
  "sample_query t ss = \<lparr>Name = ''group'', Type = t, Series = ss, Scale = Finite 0\<rparr>"

definition sample_env :: env where
  "sample_env =
     \<lparr>Xport = (\<lambda>x s t st. Inr ([''serie0''], 2, (\<lambda>l r. Finite 1))),
      Graph = (\<lambda>g s t. Inr [''group,min,1.5'']),
      ParseFloat = sampleParseFloat\<rparr>"

definition failing_graph_env :: env where
  "failing_graph_env = sample_env\<lparr>Graph := (\<lambda>g s t. Inl (EngineError ''graph failed''))\<rparr>"

definition sample_memory :: "GroupQuery \<Rightarrow> memory" where
  "sample_memory q = \<lparr>query = q, connector = sample_connector, buffers = [], allocated = 0\<rparr>"

subsection \<open>What the Sum/Avg loop produces\<close>

text \<open>The temporaries of the series that have a metric, by position in the query.\<close>

fun agg_names :: "string \<Rightarrow> nat \<Rightarrow> SerieQuery list \<Rightarrow> string list" where
  "agg_names serieName index [] = []"
| "agg_names serieName index (serie # rest) =
     (case Metric serie of
        None \<Rightarrow> agg_names serieName (Suc index) rest
      | Some mq \<Rightarrow> (serieName @ ''-tmp'' @ Itoa (int index)) # agg_names serieName (Suc index) rest)"

text \<open>Reverse-Polish accumulation: the first operand alone, each later operand followed
  by the addition operator.\<close>

definition rpn_more :: "string list \<Rightarrow> string list" where
  "rpn_more ns = concat (map (\<lambda>n. [n, ''+'']) ns)"

fun rpn_sum :: "string list \<Rightarrow> string list" where
  "rpn_sum [] = []"
| "rpn_sum (n # ns) = n # rpn_more ns"

text \<open>The definitions the loop sends for the series that have a metric.\<close>

fun agg_defs :: "RRDConnector \<Rightarrow> string \<Rightarrow> nat \<Rightarrow> SerieQuery list \<Rightarrow> rrd_arg list" where
  "agg_defs conn serieName index [] = []"
| "agg_defs conn serieName index (serie # rest) =
     (case Metric serie of
        None \<Rightarrow> agg_defs conn serieName (Suc index) rest
      | Some mq \<Rightarrow>
          (case lookup_metric conn mq of
             None \<Rightarrow> []
           | Some m \<Rightarrow> agg_args (serieName @ ''-tmp'' @ Itoa (int index)) m @
                       agg_defs conn serieName (Suc index) rest))"

text \<open>Every metric pointer of the query is in the catalog.\<close>

definition known_metrics :: "RRDConnector \<Rightarrow> SerieQuery list \<Rightarrow> bool" where
  "known_metrics conn ss = list_all (\<lambda>s. Metric s = None \<or> resolvable conn s) ss"

subsection \<open>The catalog refresh (\<^verbatim>\<open>Refresh\<close>, lines 73-158)\<close>

text \<open>A compiled pattern, as far as \<^verbatim>\<open>Refresh\<close> uses it: the names of its groups (the
  first is the empty name of the whole match) and \<^verbatim>\<open>FindStringSubmatch\<close>, which gives
  the empty slice when the text does not match.\<close>

record regexp =
  SubexpNames :: "string list"
  FindStringSubmatch :: "string \<Rightarrow> string list"

text \<open>One call of the walk function: the path, the type bits of the file mode
  (\<^verbatim>\<open>fileInfo.Mode() & os.ModeType\<close>, zero for a regular file) and the error of the
  traversal, if any.\<close>

record visit =
  filePath :: string
  fileMode :: nat
  walkErr :: "error option"

text \<open>What lies outside \<^verbatim>\<open>Refresh\<close>: \<^verbatim>\<open>regexp.MustCompile\<close> (\<open>None\<close> when it panics), the
  visits the directory walker makes under a root, in order, and \<^verbatim>\<open>rrd.Info\<close>, reduced
  to the dataset names under the key \<^verbatim>\<open>ds.index\<close> (\<open>None\<close> when the key is absent) in the
  order the loop of line 143 meets them.\<close>

record refresh_env =
  MustCompile :: "string \<Rightarrow> regexp option"
  visits :: "string \<Rightarrow> visit list"
  rrd_Info :: "string \<Rightarrow> error + string list option"

text \<open>What a completed refresh leaves: the connector, the pairs sent on the output
  channel and the errors sent on the error channel. Closing the channels is not
  modelled.\<close>

record refresh_result =
  connector_after :: RRDConnector
  sent :: "(string \<times> string) list"
  errors :: "error list"

text \<open>Lines 83-92: the first group name that is neither empty, \<open>source\<close> nor
  \<open>metric\<close>.\<close>

fun check_keys :: "string list \<Rightarrow> string option" where
  "check_keys [] = None"
| "check_keys (key # rest) =
     (if key = '''' then check_keys rest
      else if key = ''source'' \<or> key = ''metric'' then check_keys rest
      else Some key)"

text \<open>Lines 143-148: one catalog entry and one message per dataset. Lines 131-133
  have made the inner map of the source exist.\<close>

fun add_datasets ::
  "string \<Rightarrow> string \<Rightarrow> string \<Rightarrow> string list \<Rightarrow> catalog \<times> (string \<times> string) list
     \<Rightarrow> catalog \<times> (string \<times> string) list" where
  "add_datasets sourceName metricName path [] st = st"
| "add_datasets sourceName metricName path (dsName # rest) (cat, out) =
     (let metricFullName = metricName @ ''/'' @ dsName;
          inner = (case cat sourceName of None \<Rightarrow> Map.empty | Some ms \<Rightarrow> ms)
      in add_datasets sourceName metricName path rest
           (cat(sourceName \<mapsto> inner(metricFullName \<mapsto> \<lparr>Dataset = dsName, FilePath = path\<rparr>)),
            out @ [(sourceName, metricFullName)]))"

text \<open>Lines 131-133: the inner map of a source is created when it is missing.\<close>

definition ensure_source :: "catalog \<Rightarrow> string \<Rightarrow> catalog" where
  "ensure_source cat sourceName =
     (case cat sourceName of None \<Rightarrow> cat(sourceName \<mapsto> Map.empty) | Some ms \<Rightarrow> cat)"

text \<open>The walk function, lines 103-152. It returns the error it hands back to the
  walker, or panics.\<close>

definition walkFunc ::
  "refresh_env \<Rightarrow> regexp \<Rightarrow> string \<Rightarrow> visit \<Rightarrow> catalog \<times> (string \<times> string) list
     \<Rightarrow> error + (error option \<times> catalog \<times> (string \<times> string) list)" where
  "walkFunc env re path v st =
     (case walkErr v of
        Some err \<Rightarrow> Inr (Some err, st)
      | None \<Rightarrow>
          if fileMode v \<noteq> 0 then Inr (None, st)
          else if length (filePath v) < length path + 1 then Inl PanicSliceBounds
          else
            (let submatch = FindStringSubmatch re (drop (length path + 1) (filePath v)) in
             if length submatch = 0 then Inr (None, st)
             else if length (SubexpNames re) \<le> 1 then Inl PanicIndexOutOfRange
             else if length submatch \<le> 2 then Inl PanicIndexOutOfRange
             else
               (let sourceName = (if SubexpNames re ! 1 = ''source'' then submatch ! 1
                                  else submatch ! 2);
                    metricName = (if SubexpNames re ! 1 = ''source'' then submatch ! 2
                                  else submatch ! 1);
                    cat1 = ensure_source (fst st) sourceName
                in
                  (case rrd_Info env (filePath v) of
                     Inl err \<Rightarrow> Inr (None, cat1, snd st)
                   | Inr None \<Rightarrow> Inr (None, cat1, snd st)
                   | Inr (Some dss) \<Rightarrow>
                       Inr (None, add_datasets sourceName metricName (filePath v) dss
                                    (cat1, snd st))))))"

text \<open>Modelled from the spec: \<^verbatim>\<open>utils.WalkDir\<close> is not part of the file. The walker
  calls the visit function once per entry and, as soon as the function hands back an
  error, stops and returns that error.\<close>

fun WalkDir ::
  "(visit \<Rightarrow> 's \<Rightarrow> error + (error option \<times> 's)) \<Rightarrow> visit list \<Rightarrow> 's
     \<Rightarrow> error + (error option \<times> 's)" where
  "WalkDir f [] st = Inr (None, st)"
| "WalkDir f (v # rest) st =
     (case f v st of
        Inl p \<Rightarrow> Inl p
      | Inr (Some err, st') \<Rightarrow> Inr (Some err, st')
      | Inr (None, st') \<Rightarrow> WalkDir f rest st')"

definition Refresh :: "refresh_env \<Rightarrow> RRDConnector \<Rightarrow> error + refresh_result" where
  "Refresh env conn =
     (case MustCompile env (Pattern conn) of
        None \<Rightarrow> Inl PanicRegexp
      | Some re \<Rightarrow>
          (case check_keys (SubexpNames re) of
             Some key \<Rightarrow>
               Inr \<lparr>connector_after = conn, sent = [],
                    errors = [Errorf (''invalid pattern keyword `'' @ key @ [CHR 0x27])]\<rparr>
           | None \<Rightarrow>
               if ''source'' \<notin> set (SubexpNames re)
               then Inr \<lparr>connector_after = conn, sent = [],
                         errors = [Errorf (''missing pattern keyword `source'' @ [CHR 0x27])]\<rparr>
               else if ''metric'' \<notin> set (SubexpNames re)
               then Inr \<lparr>connector_after = conn, sent = [],
                         errors = [Errorf (''missing pattern keyword `metric'' @ [CHR 0x27])]\<rparr>
               else
                 (case WalkDir (walkFunc env re (Path conn)) (visits env (Path conn))
                         (metrics conn, []) of
                    Inl p \<Rightarrow> Inl p
                  | Inr (werr, cat, out) \<Rightarrow>
                      Inr \<lparr>connector_after = conn\<lparr>metrics := cat\<rparr>, sent = out,
                           errors = (case werr of None \<Rightarrow> [] | Some err \<Rightarrow> [err])\<rparr>)))"

text \<open>The descriptor the catalog holds for a source and a metric.\<close>

definition catalog_entry :: "catalog \<Rightarrow> string \<Rightarrow> string \<Rightarrow> rrdMetric option" where
  "catalog_entry cat s m = (case cat s of None \<Rightarrow> None | Some ms \<Rightarrow> ms m)"

text \<open>A step of the refresh from one catalog and message list to the next only adds:
  messages are appended, every new message has its entry, no entry disappears, and
  an entry of the new catalog is an old one or has a new message.\<close>

definition extends ::
  "catalog \<times> (string \<times> string) list \<Rightarrow> catalog \<times> (string \<times> string) list \<Rightarrow> bool" where
  "extends st st' \<longleftrightarrow>
     (\<exists>new. snd st' = snd st @ new \<and>
        (\<forall>s m. catalog_entry (fst st) s m \<noteq> None \<longrightarrow> catalog_entry (fst st') s m \<noteq> None) \<and>
        (\<forall>p\<in>set new. catalog_entry (fst st') (fst p) (snd p) \<noteq> None) \<and>
        (\<forall>s m d. catalog_entry (fst st') s m = Some d \<longrightarrow>
           catalog_entry (fst st) s m = Some d \<or> (s, m) \<in> set new))"

text \<open>Two file trees under \<^verbatim>\<open>/var/lib/rrd\<close>: the first holds \<^verbatim>\<open>host1/cpu.rrd\<close>, the
  second only \<^verbatim>\<open>host2/mem.rrd\<close>; each archive has the dataset \<open>value\<close>.\<close>

definition sample_regexp :: regexp where
  "sample_regexp =
     \<lparr>SubexpNames = ['''', ''source'', ''metric''],
      FindStringSubmatch = (\<lambda>s.
        if s = ''host1/cpu.rrd'' then [s, ''host1'', ''cpu'']
        else if s = ''host2/mem.rrd'' then [s, ''host2'', ''mem'']
        else [])\<rparr>"

definition first_tree :: refresh_env where
  "first_tree =
     \<lparr>MustCompile = (\<lambda>p. Some sample_regexp),
      visits = (\<lambda>root. [\<lparr>filePath = ''/var/lib/rrd/host1'', fileMode = 1, walkErr = None\<rparr>,
                         \<lparr>filePath = ''/var/lib/rrd/host1/cpu.rrd'', fileMode = 0, walkErr = None\<rparr>]),
      rrd_Info = (\<lambda>f. Inr (Some [''value'']))\<rparr>"

definition second_tree :: refresh_env where
  "second_tree =
     first_tree\<lparr>visits := (\<lambda>root.
        [\<lparr>filePath = ''/var/lib/rrd/host2'', fileMode = 1, walkErr = None\<rparr>,
         \<lparr>filePath = ''/var/lib/rrd/host2/mem.rrd'', fileMode = 0, walkErr = None\<rparr>])\<rparr>"

definition fresh_connector :: RRDConnector where
  "fresh_connector = sample_connector\<lparr>metrics := Map.empty\<rparr>"

subsection \<open>The execution engine, as the specification describes it\<close>

text \<open>Arithmetic of the engine on \<^verbatim>\<open>float64\<close> values; the unknown reading is the
  not-a-number value.\<close>

fun float64_add :: "float64 \<Rightarrow> float64 \<Rightarrow> float64" where
  "float64_add (Finite a) (Finite b) = Finite (a + b)"
| "float64_add NaN y = NaN"
| "float64_add x NaN = NaN"
| "float64_add PosInf NegInf = NaN"
| "float64_add NegInf PosInf = NaN"
| "float64_add PosInf y = PosInf"
| "float64_add NegInf y = NegInf"
| "float64_add (Finite a) y = y"

fun float64_sgn :: "float64 \<Rightarrow> int" where
  "float64_sgn (Finite a) = sgn \<lfloor>sgn a\<rfloor>"
| "float64_sgn PosInf = 1"
| "float64_sgn NegInf = - 1"
| "float64_sgn NaN = 0"

definition float64_inf :: "int \<Rightarrow> float64" where
  "float64_inf s = (if s = 0 then NaN else if 0 < s then PosInf else NegInf)"

fun float64_mul :: "float64 \<Rightarrow> float64 \<Rightarrow> float64" where
  "float64_mul (Finite a) (Finite b) = Finite (a * b)"
| "float64_mul NaN y = NaN"
| "float64_mul x NaN = NaN"
| "float64_mul x y = float64_inf (float64_sgn x * float64_sgn y)"

fun float64_div :: "float64 \<Rightarrow> float64 \<Rightarrow> float64" where
  "float64_div (Finite a) (Finite b) =
     (if b = 0 then float64_inf (float64_sgn (Finite a)) else Finite (a / b))"
| "float64_div NaN y = NaN"
| "float64_div x NaN = NaN"
| "float64_div (Finite a) y = Finite 0"
| "float64_div x (Finite b) = float64_inf (float64_sgn x * (if b < 0 then - 1 else 1))"
| "float64_div x y = NaN"

text \<open>Numeric literals of an expression: an optional sign, digits, and an optional
  point followed by digits.\<close>

definition is_digit :: "char \<Rightarrow> bool" where
  "is_digit c = (c \<in> set ''0123456789'')"

definition digits_value :: "string \<Rightarrow> nat" where
  "digits_value s = foldl (\<lambda>n c. 10 * n + (of_char c - 48)) 0 s"

definition parse_unsigned :: "string \<Rightarrow> real option" where
  "parse_unsigned s =
     (let whole = takeWhile is_digit s; rest = dropWhile is_digit s in
      if whole = [] then None
      else if rest = [] then Some (real (digits_value whole))
      else if hd rest = CHR ''.'' \<and> tl rest \<noteq> [] \<and> list_all is_digit (tl rest)
        then Some (real (digits_value whole) + real (digits_value (tl rest)) / 10 ^ length (tl rest))
      else None)"

definition parse_number :: "string \<Rightarrow> real option" where
  "parse_number s =
     (case s of
        [] \<Rightarrow> None
      | c # r \<Rightarrow> if c = CHR ''-'' then map_option uminus (parse_unsigned r) else parse_unsigned s)"

text \<open>The tokens of an expression are separated by commas.\<close>

fun split_on :: "char \<Rightarrow> string \<Rightarrow> string list" where
  "split_on c [] = [[]]"
| "split_on c (x # xs) =
     (if x = c then [] # split_on c xs
      else (case split_on c xs of [] \<Rightarrow> [[x]] | w # ws \<Rightarrow> (x # w) # ws))"

text \<open>Modelled from the spec: the expression evaluator of the engine is not part of
  the repository. One token of a reverse-Polish expression acts on the stack (top
  first): a number is pushed; \<open>UN\<close> replaces the top by 1 when it is unknown and by 0
  otherwise; \<open>a,b,c,IF\<close> selects \<open>b\<close> when \<open>a\<close> is not zero and \<open>c\<close> otherwise; \<open>+\<close>, \<open>*\<close> and
  \<open>/\<close> combine the two topmost values; any other token is an identifier defined
  earlier. A token that cannot act is an error (\<open>None\<close>).\<close>

definition rpn_token :: "(string \<rightharpoonup> float64) \<Rightarrow> string \<Rightarrow> float64 list \<Rightarrow> float64 list option" where
  "rpn_token vars tok st =
     (case parse_number tok of
        Some n \<Rightarrow> Some (Finite n # st)
      | None \<Rightarrow>
          if tok = ''UN'' then
            (case st of a # r \<Rightarrow> Some ((if a = NaN then Finite 1 else Finite 0) # r) | _ \<Rightarrow> None)
          else if tok = ''IF'' then
            (case st of c # b # a # r \<Rightarrow> Some ((if a \<noteq> Finite 0 then b else c) # r) | _ \<Rightarrow> None)
          else if tok = ''+'' then
            (case st of b # a # r \<Rightarrow> Some (float64_add a b # r) | _ \<Rightarrow> None)
          else if tok = ''*'' then
            (case st of b # a # r \<Rightarrow> Some (float64_mul a b # r) | _ \<Rightarrow> None)
          else if tok = ''/'' then
            (case st of b # a # r \<Rightarrow> Some (float64_div a b # r) | _ \<Rightarrow> None)
          else (case vars tok of Some v \<Rightarrow> Some (v # st) | None \<Rightarrow> None))"

fun rpn_run :: "(string \<rightharpoonup> float64) \<Rightarrow> string list \<Rightarrow> float64 list \<Rightarrow> float64 list option" where
  "rpn_run vars [] st = Some st"
| "rpn_run vars (tok # rest) st =
     (case rpn_token vars tok st of None \<Rightarrow> None | Some st' \<Rightarrow> rpn_run vars rest st')"

text \<open>An expression has a value when its evaluation leaves exactly one value.\<close>

definition rpn_eval :: "(string \<rightharpoonup> float64) \<Rightarrow> string \<Rightarrow> float64 option" where
  "rpn_eval vars expr =
     (case rpn_run vars (split_on CHR '','' expr) [] of Some [v] \<Rightarrow> Some v | _ \<Rightarrow> None)"

text \<open>Modelled from the spec: the engine runs the operations of a request in order,
  for one row. \<open>reading f d\<close> is the sample of dataset \<open>d\<close> of archive \<open>f\<close> at that row;
  define-from-archive binds an identifier to it, derive binds an identifier to the
  value of its expression.\<close>

fun row_vars ::
  "(string \<Rightarrow> string \<Rightarrow> float64) \<Rightarrow> rrd_arg list \<Rightarrow> (string \<rightharpoonup> float64) \<Rightarrow> (string \<rightharpoonup> float64) option"
where
  "row_vars reading [] vars = Some vars"
| "row_vars reading (Def v f d cf # rest) vars = row_vars reading rest (vars(v \<mapsto> reading f d))"
| "row_vars reading (CDef v expr # rest) vars =
     (case rpn_eval vars expr of
        None \<Rightarrow> None
      | Some x \<Rightarrow> row_vars reading rest (vars(v \<mapsto> x)))"
| "row_vars reading (a # rest) vars = row_vars reading rest vars"

text \<open>The identifiers marked as output, with their legends.\<close>

fun exported :: "rrd_arg list \<Rightarrow> (string \<times> string) list" where
  "exported [] = []"
| "exported (XportDef v legend # rest) = (v, legend) # exported rest"
| "exported (a # rest) = exported rest"

definition row_ok :: "(string \<Rightarrow> string \<Rightarrow> float64) \<Rightarrow> rrd_arg list \<Rightarrow> bool" where
  "row_ok reading args =
     (case row_vars reading args Map.empty of
        None \<Rightarrow> False
      | Some vars \<Rightarrow> list_all (\<lambda>p. vars (fst p) \<noteq> None) (exported args))"

definition row_value :: "(string \<Rightarrow> string \<Rightarrow> float64) \<Rightarrow> rrd_arg list \<Rightarrow> nat \<Rightarrow> float64" where
  "row_value reading args l =
     (case row_vars reading args Map.empty of
        None \<Rightarrow> NaN
      | Some vars \<Rightarrow> (case vars (fst (exported args ! l)) of None \<Rightarrow> NaN | Some v \<Rightarrow> v))"

text \<open>Modelled from the spec: an export over a window of \<open>rows\<close> rows, where
  \<open>readings f d r\<close> is the sample of dataset \<open>d\<close> of archive \<open>f\<close> at row \<open>r\<close>: the table has
  one column per output identifier, and the request fails when an expression has no
  value.\<close>

definition spec_Xport ::
  "(string \<Rightarrow> string \<Rightarrow> nat \<Rightarrow> float64) \<Rightarrow> nat \<Rightarrow> Exporter
     \<Rightarrow> error + (string list \<times> nat \<times> (nat \<Rightarrow> nat \<Rightarrow> float64))" where
  "spec_Xport readings rows x =
     (if list_all (\<lambda>r. row_ok (\<lambda>f d. readings f d r) (XArgs x)) [0..<rows]
      then Inr (map snd (exported (XArgs x)), rows,
                (\<lambda>l r. row_value (\<lambda>f d. readings f d r) (XArgs x) l))
      else Inl (EngineError ''xport failed''))"

definition spec_env ::
  "(string \<Rightarrow> string \<Rightarrow> nat \<Rightarrow> float64) \<Rightarrow> nat \<Rightarrow> (Grapher \<Rightarrow> int \<Rightarrow> int \<Rightarrow> error + string list)
     \<Rightarrow> (string \<Rightarrow> float64 option) \<Rightarrow> env" where
  "spec_env readings rows g parse =
     \<lparr>Xport = (\<lambda>x startTime endTime step. spec_Xport readings rows x),
      Graph = g, ParseFloat = parse\<rparr>"

text \<open>The readings of the series that have a metric, in the order of the query, and
  the value of a reading with zero for the unknown.\<close>

fun agg_readings ::
  "RRDConnector \<Rightarrow> (string \<Rightarrow> string \<Rightarrow> float64) \<Rightarrow> SerieQuery list \<Rightarrow> float64 list" where
  "agg_readings conn reading [] = []"
| "agg_readings conn reading (serie # rest) =
     (case Metric serie of
        None \<Rightarrow> agg_readings conn reading rest
      | Some mq \<Rightarrow>
          (case lookup_metric conn mq of
             None \<Rightarrow> agg_readings conn reading rest
           | Some m \<Rightarrow> reading (FilePath m) (Dataset m) # agg_readings conn reading rest))"

definition known_value :: "float64 \<Rightarrow> real" where
  "known_value v = (case v of Finite a \<Rightarrow> a | _ \<Rightarrow> 0)"

definition finite_or_unknown :: "float64 \<Rightarrow> bool" where
  "finite_or_unknown v = (case v of Finite a \<Rightarrow> True | NaN \<Rightarrow> True | _ \<Rightarrow> False)"

text \<open>Sample readings: the dataset of \<^verbatim>\<open>cpu.rrd\<close> is unknown at row 0 and 1 at row 1,
  the dataset of every other archive is 2 at row 0 and 5 at row 1.\<close>

definition sample_readings :: "string \<Rightarrow> string \<Rightarrow> nat \<Rightarrow> float64" where
  "sample_readings f d r =
     (if f = ''/var/lib/rrd/host1/cpu.rrd'' then (if r = 0 then NaN else Finite 1)
      else (if r = 0 then Finite 2 else Finite 5))"

text \<open>The value of a reading with zero for the unknown, and the variables the
  definitions of the Sum/Avg loop bind for one row.\<close>

definition zero_unknown :: "float64 \<Rightarrow> float64" where
  "zero_unknown v = (if v = NaN then Finite 0 else v)"

fun agg_vars ::
  "RRDConnector \<Rightarrow> (string \<Rightarrow> string \<Rightarrow> float64) \<Rightarrow> string \<Rightarrow> nat \<Rightarrow> SerieQuery list
     \<Rightarrow> (string \<rightharpoonup> float64) \<Rightarrow> (string \<rightharpoonup> float64)" where
  "agg_vars conn reading name i [] vars = vars"
| "agg_vars conn reading name i (serie # rest) vars =
     (case Metric serie of
        None \<Rightarrow> agg_vars conn reading name (Suc i) rest vars
      | Some mq \<Rightarrow>
          (case lookup_metric conn mq of
             None \<Rightarrow> vars
           | Some m \<Rightarrow>
               agg_vars conn reading name (Suc i) rest
                 (vars(name @ ''-tmp'' @ Itoa (int i) @ ''-ori'' \<mapsto> reading (FilePath m) (Dataset m),
                       name @ ''-tmp'' @ Itoa (int i) \<mapsto>
                         zero_unknown (reading (FilePath m) (Dataset m))))))"

section \<open>Verified properties\<close>

subsection \<open>Splitting statistic lines\<close>

lemma split_at_sep:
  assumes "c \<in> set v"
  shows "v = takeWhile (\<lambda>x. x \<noteq> c) v @ c # tl (dropWhile (\<lambda>x. x \<noteq> c) v)"
proof -
  have ne: "dropWhile (\<lambda>x. x \<noteq> c) v \<noteq> []"
    using assms by (simp add: dropWhile_eq_Nil_conv)
  then have "hd (dropWhile (\<lambda>x. x \<noteq> c) v) = c"
    using hd_dropWhile [of "\<lambda>x. x \<noteq> c" v] by simp
  with ne have "dropWhile (\<lambda>x. x \<noteq> c) v = c # tl (dropWhile (\<lambda>x. x \<noteq> c) v)"
    by (cases "dropWhile (\<lambda>x. x \<noteq> c) v") simp_all
  then show ?thesis
    using takeWhile_dropWhile_id [of "\<lambda>x. x \<noteq> c" v] by simp
qed

lemma commas_split:
  assumes "CHR '','' \<in> set v"
  shows "commas v = Suc (commas (tl (dropWhile (\<lambda>x. x \<noteq> CHR '','') v)))"
proof -
  have "filter (\<lambda>c. c = CHR '','') (takeWhile (\<lambda>c. c \<noteq> CHR '','') v) = []"
    by (auto simp: filter_empty_conv dest: set_takeWhileD)
  then show ?thesis
    unfolding commas_def by (subst split_at_sep [OF assms]) simp
qed

lemma length_SplitN:
  "length (SplitN v CHR '','' (Suc n)) = min (Suc n) (Suc (commas v))"
proof (induction n arbitrary: v)
  case 0
  then show ?case by simp
next
  case (Suc n)
  show ?case
  proof (cases "CHR '','' \<in> set v")
    case False
    then have "commas v = 0" by (auto simp: commas_def filter_empty_conv)
    with False show ?thesis by simp
  next
    case True
    with Suc.IH [of "tl (dropWhile (\<lambda>c. c \<noteq> CHR '','') v)"] commas_split [OF True]
    show ?thesis by simp
  qed
qed

lemma length_SplitN3: "length (SplitN v CHR '','' 3) \<le> 2 \<longleftrightarrow> commas v < 2"
  using length_SplitN [of v 2] by (simp add: numeral_3_eq_3 min_def)

lemma SplitN3_eval: "SplitN s c 3 =
     (if c \<in> set s
      then takeWhile (\<lambda>x. x \<noteq> c) s #
        (let r = tl (dropWhile (\<lambda>x. x \<noteq> c) s) in
         if c \<in> set r then [takeWhile (\<lambda>x. x \<noteq> c) r, tl (dropWhile (\<lambda>x. x \<noteq> c) r)] else [r])
      else [s])"
  by (simp add: numeral_3_eq_3 Let_def)

subsection \<open>The connector factory\<close>

text \<open>
  C5 (the code departs from the claim). The factory checks the presence of \<open>path\<close> and
  \<open>pattern\<close> only, yet it asserts that the value under \<open>daemon\<close> is a string; for an
  absent key the assertion fails. At a configuration that gives \<open>path\<close> and \<open>pattern\<close> as
  strings and leaves \<open>daemon\<close> out, the factory returns the error of line 52, not a
  connector.
\<close>

theorem factory_rejects_missing_daemon:
  "Connectors_rrd 0
     [''path'' \<mapsto> IString ''/var/lib/rrd'',
      ''pattern'' \<mapsto> IString ''(?P<source>[^/]+)/(?P<metric>.+).rrd'']
   = Inl (Errorf ''connector setting `daemon' should be a string'')"
  by (simp add: Connectors_rrd_def)

subsection \<open>The result merger\<close>

lemma rrdParseInfo_line_panics:
  "rrdParseInfo_line pf v data = Inl e \<longleftrightarrow> commas v < 2 \<and> e = PanicIndexOutOfRange"
  using length_SplitN3 [of v]
  by (auto simp: rrdParseInfo_line_def Let_def)

lemma rrdParseInfo_Inl:
  "rrdParseInfo pf info data = Inl e \<longleftrightarrow> (\<exists>v\<in>set info. commas v < 2) \<and> e = PanicIndexOutOfRange"
proof (induction info arbitrary: data)
  case Nil
  then show ?case by simp
next
  case (Cons v rest)
  show ?case
  proof (cases "rrdParseInfo_line pf v data")
    case (Inl e')
    then show ?thesis using rrdParseInfo_line_panics [of pf v data e'] by auto
  next
    case (Inr d)
    then have "\<not> commas v < 2"
      using rrdParseInfo_line_panics [of pf v data PanicIndexOutOfRange] by auto
    with Inr Cons.IH [of d] show ?thesis by auto
  qed
qed

text \<open>
  C10. The merger reads the third field of every split line without a length check. It
  returns a result exactly when every statistic line holds at least two commas; as soon
  as one line holds fewer, the read of \<^verbatim>\<open>chunks[2]\<close> is out of bounds and the run ends
  in that panic.
\<close>

theorem rrdParseInfo_total_iff:
  "((\<forall>v\<in>set info. 2 \<le> commas v) \<longrightarrow> (\<exists>r. rrdParseInfo pf info data = Inr r)) \<and>
   ((\<exists>v\<in>set info. commas v < 2) \<longrightarrow> rrdParseInfo pf info data = Inl PanicIndexOutOfRange)"
proof (cases "rrdParseInfo pf info data")
  case (Inl e)
  then show ?thesis using rrdParseInfo_Inl [of pf info data e] by (auto simp: not_le)
next
  case (Inr r)
  then show ?thesis
    using rrdParseInfo_Inl [of pf info data PanicIndexOutOfRange] by (auto simp: not_less)
qed

theorem rrdParseInfo_total_iff_witness:
  "(\<exists>r. rrdParseInfo (\<lambda>s. None) [''cpu,min,1.5'', ''cpu,max,abc''] Map.empty = Inr r) \<and>
   rrdParseInfo (\<lambda>s. None) [''cpu,min,1.5'', ''cpu,max''] Map.empty = Inl PanicIndexOutOfRange"
  using rrdParseInfo_total_iff [of "[''cpu,min,1.5'', ''cpu,max,abc'']" "\<lambda>s. None" Map.empty]
    rrdParseInfo_total_iff [of "[''cpu,min,1.5'', ''cpu,max'']" "\<lambda>s. None" Map.empty]
  by (simp add: commas_def)

lemma SplitN3_fields:
  assumes "CHR '','' \<notin> set a" "CHR '','' \<notin> set b"
  shows "SplitN (a @ '','' @ b @ '','' @ v) CHR '','' 3 = [a, b, v]"
proof -
  have ta: "takeWhile (\<lambda>x. x \<noteq> CHR '','') (a @ CHR '','' # r) = a" for r
    using assms(1) by (auto simp: takeWhile_tail)
  have da: "dropWhile (\<lambda>x. x \<noteq> CHR '','') (a @ CHR '','' # r) = CHR '','' # r" for r
    using assms(1) by (auto simp: dropWhile_append3)
  have tb: "takeWhile (\<lambda>x. x \<noteq> CHR '','') (b @ CHR '','' # r) = b" for r
    using assms(2) by (auto simp: takeWhile_tail)
  have db: "dropWhile (\<lambda>x. x \<noteq> CHR '','') (b @ CHR '','' # r) = CHR '','' # r" for r
    using assms(2) by (auto simp: dropWhile_append3)
  show ?thesis
    by (simp add: SplitN3_eval ta da tb db Let_def)
qed

lemma rrdParseInfo_line_fields:
  assumes "CHR '','' \<notin> set a" "CHR '','' \<notin> set b"
  shows "rrdParseInfo_line pf (a @ '','' @ b @ '','' @ v) data =
    Inr (data(a \<mapsto>
      (case data a of None \<Rightarrow> \<lparr>Plots = [], Info = Map.empty\<rparr> | Some pr \<Rightarrow> pr)
        \<lparr>Info := (Info (case data a of None \<Rightarrow> \<lparr>Plots = [], Info = Map.empty\<rparr> | Some pr \<Rightarrow> pr))
           (b \<mapsto> (case pf v of None \<Rightarrow> NaN | Some f \<Rightarrow> f))\<rparr>))"
  unfolding rrdParseInfo_line_def SplitN3_fields [OF assms] by (simp add: Let_def)

lemma rrdParseInfo_append:
  "rrdParseInfo pf (xs @ ys) data =
     (case rrdParseInfo pf xs data of Inl e \<Rightarrow> Inl e | Inr d \<Rightarrow> rrdParseInfo pf ys d)"
  by (induction xs arbitrary: data) (auto split: sum.splits)

lemma rrdParseInfo_line_keeps_samples:
  assumes "rrdParseInfo_line pf u d = Inr d'" and "d l = Some pr"
  shows "\<exists>pr'. d' l = Some pr' \<and> Plots pr' = Plots pr"
  using assms
  by (auto simp: rrdParseInfo_line_def Let_def split: if_splits option.splits)

lemma rrdParseInfo_keeps_samples:
  assumes "rrdParseInfo pf info d = Inr d'" and "d l = Some pr"
  shows "\<exists>pr'. d' l = Some pr' \<and> Plots pr' = Plots pr"
  using assms
proof (induction info arbitrary: d pr)
  case Nil
  then show ?case by simp
next
  case (Cons u rest)
  from Cons.prems(1) obtain d1 where d1: "rrdParseInfo_line pf u d = Inr d1"
    and rest: "rrdParseInfo pf rest d1 = Inr d'" by (auto split: sum.splits)
  from rrdParseInfo_line_keeps_samples [OF d1 Cons.prems(2)] obtain pr1 where
    "d1 l = Some pr1" "Plots pr1 = Plots pr" by blast
  with Cons.IH [OF rest, of pr1] show ?case by auto
qed

lemma line_chunks:
  assumes "rrdParseInfo_line parse u d = Inr d'"
  obtains a b c where "SplitN u CHR '','' 3 = [a, b, c]"
proof -
  from assms have "\<not> length (SplitN u CHR '','' 3) \<le> 2"
    by (auto simp: rrdParseInfo_line_def Let_def split: if_splits)
  moreover have "length (SplitN u CHR '','' 3) \<le> 3"
    using length_SplitN [of u 2] by (simp add: numeral_3_eq_3)
  ultimately have "length (SplitN u CHR '','' 3) = 3" by simp
  then obtain a b c where "SplitN u CHR '','' 3 = [a, b, c]"
    by (auto simp: length_Suc_conv numeral_3_eq_3)
  then show ?thesis by (rule that)
qed

lemma line_effect:
  assumes "rrdParseInfo_line parse u d = Inr d'"
  shows "statistic d' l k = (if binds u l k then Some (stored_value parse u) else statistic d l k)"
    and "samples d' l =
      (if mentions u l then Some (case d l of None \<Rightarrow> [] | Some pr \<Rightarrow> Plots pr) else samples d l)"
proof -
  from assms obtain a b c where ch: "SplitN u CHR '','' 3 = [a, b, c]" by (rule line_chunks)
  from assms have d': "d' = d(a \<mapsto>
      (case d a of None \<Rightarrow> \<lparr>Plots = [], Info = Map.empty\<rparr> | Some pr \<Rightarrow> pr)
        \<lparr>Info := (Info (case d a of None \<Rightarrow> \<lparr>Plots = [], Info = Map.empty\<rparr> | Some pr \<Rightarrow> pr))
           (b \<mapsto> stored_value parse u)\<rparr>)"
    by (simp add: rrdParseInfo_line_def ch Let_def stored_value_def)
  show "statistic d' l k = (if binds u l k then Some (stored_value parse u) else statistic d l k)"
    by (auto simp: d' statistic_def binds_def ch split: option.splits)
  show "samples d' l =
      (if mentions u l then Some (case d l of None \<Rightarrow> [] | Some pr \<Rightarrow> Plots pr) else samples d l)"
    by (auto simp: d' samples_def mentions_def ch split: option.splits)
qed

lemma run_unbound:
  assumes "rrdParseInfo parse info d = Inr r" and "\<forall>u\<in>set info. \<not> binds u l k"
  shows "statistic r l k = statistic d l k"
  using assms
proof (induction info arbitrary: d)
  case Nil
  then show ?case by simp
next
  case (Cons u rest)
  from Cons.prems(1) obtain d1 where d1: "rrdParseInfo_line parse u d = Inr d1"
    and rest: "rrdParseInfo parse rest d1 = Inr r" by (auto split: sum.splits)
  from Cons.prems(2) have "\<not> binds u l k" "\<forall>y\<in>set rest. \<not> binds y l k" by simp_all
  with line_effect(1) [OF d1, of l k] Cons.IH [OF rest] show ?case by simp
qed

lemma run_last_binding:
  assumes "rrdParseInfo parse (xs @ u # ys) d = Inr r" and "binds u l k"
    and "\<forall>y\<in>set ys. \<not> binds y l k"
  shows "statistic r l k = Some (stored_value parse u)"
proof -
  from assms(1) obtain d0 d1 where "rrdParseInfo parse xs d = Inr d0"
    and d1: "rrdParseInfo_line parse u d0 = Inr d1"
    and ys: "rrdParseInfo parse ys d1 = Inr r"
    by (auto simp: rrdParseInfo_append split: sum.splits)
  from line_effect(1) [OF d1, of l k] assms(2)
  have "statistic d1 l k = Some (stored_value parse u)" by simp
  with run_unbound [OF ys assms(3)] show ?thesis by simp
qed

lemma run_new_label:
  assumes "rrdParseInfo parse info d = Inr r" and "d l = None"
  shows "samples r l = (if \<exists>u\<in>set info. mentions u l then Some [] else None)"
  using assms
proof (induction info arbitrary: d)
  case Nil
  then show ?case by (simp add: samples_def)
next
  case (Cons u rest)
  from Cons.prems(1) obtain d1 where d1: "rrdParseInfo_line parse u d = Inr d1"
    and rest: "rrdParseInfo parse rest d1 = Inr r" by (auto split: sum.splits)
  show ?case
  proof (cases "mentions u l")
    case True
    with line_effect(2) [OF d1, of l] Cons.prems(2) have "samples d1 l = Some []" by simp
    then obtain pr where pr: "d1 l = Some pr" "Plots pr = []" by (auto simp: samples_def)
    from rrdParseInfo_keeps_samples [OF rest pr(1)] pr(2) True show ?thesis
      by (auto simp: samples_def)
  next
    case False
    with line_effect(2) [OF d1, of l] Cons.prems(2) have "samples d1 l = None"
      by (simp add: samples_def)
    then have "d1 l = None" by (simp add: samples_def)
    from Cons.IH [OF rest this] False show ?thesis by simp
  qed
qed

lemma run_old_label:
  assumes "rrdParseInfo parse info d = Inr r" and "d l = Some pr"
  shows "samples r l = Some (Plots pr)"
  using rrdParseInfo_keeps_samples [OF assms] by (auto simp: samples_def)

lemma shaped_line:
  assumes "CHR '','' \<notin> set a" and "CHR '','' \<notin> set b"
  shows "binds (a @ '','' @ b @ '','' @ w) l k \<longleftrightarrow> a = l \<and> b = k"
    and "mentions (a @ '','' @ b @ '','' @ w) l \<longleftrightarrow> a = l"
    and "stored_value parse (a @ '','' @ b @ '','' @ w) = (case parse w of None \<Rightarrow> NaN | Some f \<Rightarrow> f)"
  unfolding binds_def mentions_def stored_value_def SplitN3_fields [OF assms] by simp_all

text \<open>
  C9. A statistic line \<open>label,key,v\<close> whose value text \<open>v\<close> does not parse does not
  stop the merger: provided the other lines have their three fields, the run returns a
  result \<open>r\<close>, and \<open>r\<close> is determined by the input as follows. Unless a later line binds
  (label, key) again, the statistic under label and key is the not-a-number value.
  Every line \<open>a,b,w\<close> of the run that is the last to bind its pair has, under \<open>a\<close> and
  \<open>b\<close>, the number \<open>w\<close> parses to (not-a-number when it does not parse). A statistic
  that no line binds is the one the merger was given. Every label the merger was given
  keeps its sample sequence, and a label that only the lines introduce has the empty
  sample sequence.
\<close>

theorem rrdParseInfo_malformed_value:
  assumes "CHR '','' \<notin> set label" and "CHR '','' \<notin> set key"
    and "parse v = None"
    and "\<forall>u\<in>set (pre @ post). 2 \<le> commas u"
  shows "\<exists>r.
      rrdParseInfo parse (pre @ [label @ '','' @ key @ '','' @ v] @ post) data = Inr r \<and>
      ((\<forall>u\<in>set post. \<not> binds u label key) \<longrightarrow> statistic r label key = Some NaN) \<and>
      (\<forall>xs a b w ys.
         pre @ [label @ '','' @ key @ '','' @ v] @ post = xs @ (a @ '','' @ b @ '','' @ w) # ys \<and>
         CHR '','' \<notin> set a \<and> CHR '','' \<notin> set b \<and> (\<forall>y\<in>set ys. \<not> binds y a b) \<longrightarrow>
         statistic r a b = Some (case parse w of None \<Rightarrow> NaN | Some f \<Rightarrow> f)) \<and>
      (\<forall>l k. (\<forall>u\<in>set (pre @ [label @ '','' @ key @ '','' @ v] @ post). \<not> binds u l k) \<longrightarrow>
         statistic r l k = statistic data l k) \<and>
      (\<forall>l pr. data l = Some pr \<longrightarrow> samples r l = Some (Plots pr)) \<and>
      (\<forall>l. data l = None \<longrightarrow>
         samples r l =
           (if \<exists>u\<in>set (pre @ [label @ '','' @ key @ '','' @ v] @ post). mentions u l
            then Some [] else None))"
proof -
  let ?line = "label @ '','' @ key @ '','' @ v"
  let ?all = "pre @ [?line] @ post"
  have "commas ?line \<ge> 2" by (simp add: commas_def)
  with assms(4) have "\<not> (\<exists>u\<in>set ?all. commas u < 2)"
    by (auto simp: not_less)
  then have "\<And>e. rrdParseInfo parse ?all data \<noteq> Inl e"
    unfolding rrdParseInfo_Inl by blast
  then obtain r where r: "rrdParseInfo parse ?all data = Inr r"
    by (cases "rrdParseInfo parse ?all data") auto
  have nan: "statistic r label key = Some NaN" if "\<forall>u\<in>set post. \<not> binds u label key"
  proof -
    have "rrdParseInfo parse (pre @ ?line # post) data = Inr r" using r by simp
    moreover have "binds ?line label key"
      using shaped_line(1) [OF assms(1,2)] by simp
    moreover have "stored_value parse ?line = NaN"
      using shaped_line(3) [OF assms(1,2), where w = v and parse = parse] by (simp add: assms(3))
    ultimately show ?thesis using run_last_binding that by metis
  qed
  have others: "statistic r a b = Some (case parse w of None \<Rightarrow> NaN | Some f \<Rightarrow> f)"
    if "?all = xs @ (a @ '','' @ b @ '','' @ w) # ys" "CHR '','' \<notin> set a" "CHR '','' \<notin> set b"
      "\<forall>y\<in>set ys. \<not> binds y a b" for xs a b w ys
  proof -
    have "rrdParseInfo parse (xs @ (a @ '','' @ b @ '','' @ w) # ys) data = Inr r"
      using r that(1) by simp
    moreover have "binds (a @ '','' @ b @ '','' @ w) a b"
      using shaped_line(1) [OF that(2,3)] by simp
    moreover have "stored_value parse (a @ '','' @ b @ '','' @ w)
        = (case parse w of None \<Rightarrow> NaN | Some f \<Rightarrow> f)"
      by (rule shaped_line(3) [OF that(2,3)])
    ultimately show ?thesis using run_last_binding that(4) by metis
  qed
  have unbound: "statistic r l k = statistic data l k" if "\<forall>u\<in>set ?all. \<not> binds u l k" for l k
    by (rule run_unbound [OF r that])
  have old: "samples r l = Some (Plots pr)" if "data l = Some pr" for l pr
    by (rule run_old_label [OF r that])
  have new: "samples r l = (if \<exists>u\<in>set ?all. mentions u l then Some [] else None)"
    if "data l = None" for l
    by (rule run_new_label [OF r that])
  from r nan others unbound old new show ?thesis by blast
qed

theorem rrdParseInfo_malformed_value_witness:
  "\<exists>r. rrdParseInfo sampleParseFloat [''cpu,min,1.5'', ''cpu,max,abc'', ''mem,min,2''] sample_plots = Inr r \<and>
     statistic r ''cpu'' ''max'' = Some NaN \<and>
     statistic r ''cpu'' ''min'' = Some (Finite 1.5) \<and>
     statistic r ''mem'' ''min'' = Some (Finite 2) \<and>
     statistic r ''cpu'' ''last'' = Some (Finite 7) \<and>
     samples r ''cpu'' = Some [Finite 1] \<and>
     samples r ''mem'' = Some []"
proof -
  let ?all = "[''cpu,min,1.5'', ''cpu,max,abc'', ''mem,min,2'']"
  have a: "CHR '','' \<notin> set ''cpu''" "CHR '','' \<notin> set ''max''" "sampleParseFloat ''abc'' = None"
    by (simp_all add: sampleParseFloat_def)
  have b: "\<forall>u\<in>set ([''cpu,min,1.5''] @ [''mem,min,2'']). 2 \<le> commas u"
    by (simp add: commas_def)
  have nb: "\<not> binds ''mem,min,2'' ''cpu'' ''max''" "\<not> binds ''cpu,max,abc'' ''cpu'' ''min''"
    "\<not> binds ''mem,min,2'' ''cpu'' ''min''" "\<not> binds ''cpu,min,1.5'' ''cpu'' ''last''"
    "\<not> binds ''cpu,max,abc'' ''cpu'' ''last''" "\<not> binds ''mem,min,2'' ''cpu'' ''last''"
    by (simp_all add: binds_def SplitN3_eval)
  have mn: "mentions ''mem,min,2'' ''mem''" by (simp add: mentions_def SplitN3_eval)
  note T = rrdParseInfo_malformed_value [where label = "''cpu''" and key = "''max''"
      and parse = sampleParseFloat and v = "''abc''" and pre = "[''cpu,min,1.5'']"
      and post = "[''mem,min,2'']" and data = sample_plots, OF a b, unfolded append.simps]
  from T obtain r where r: "rrdParseInfo sampleParseFloat ?all sample_plots = Inr r"
    and nan: "(\<forall>u\<in>set [''mem,min,2'']. \<not> binds u ''cpu'' ''max'') \<longrightarrow> statistic r ''cpu'' ''max'' = Some NaN"
    and others: "\<forall>xs a b w ys. ?all = xs @ (a @ CHR '','' # b @ CHR '','' # w) # ys \<and>
         CHR '','' \<notin> set a \<and> CHR '','' \<notin> set b \<and> (\<forall>y\<in>set ys. \<not> binds y a b) \<longrightarrow>
         statistic r a b = Some (case sampleParseFloat w of None \<Rightarrow> NaN | Some f \<Rightarrow> f)"
    and unbound: "\<forall>l k. (\<forall>u\<in>set ?all. \<not> binds u l k) \<longrightarrow> statistic r l k = statistic sample_plots l k"
    and old: "\<forall>l pr. sample_plots l = Some pr \<longrightarrow> samples r l = Some (Plots pr)"
    and new: "\<forall>l. sample_plots l = None \<longrightarrow>
         samples r l = (if \<exists>u\<in>set ?all. mentions u l then Some [] else None)"
    by (elim exE conjE) (rule that, assumption+)
  have 1: "statistic r ''cpu'' ''max'' = Some NaN" using nan nb by simp
  have 2: "statistic r ''cpu'' ''min'' = Some (Finite 1.5)"
    using others [rule_format, of "[]" "''cpu''" "''min''" "''1.5''" "[''cpu,max,abc'', ''mem,min,2'']"] nb
    by (simp add: sampleParseFloat_def)
  have 3: "statistic r ''mem'' ''min'' = Some (Finite 2)"
    using others [rule_format, of "[''cpu,min,1.5'', ''cpu,max,abc'']" "''mem''" "''min''" "''2''" "[]"]
    by (simp add: sampleParseFloat_def)
  have 4: "statistic r ''cpu'' ''last'' = Some (Finite 7)"
    using unbound [rule_format, of "''cpu''" "''last''"] nb by (auto simp: sample_plots_def statistic_def)
  have 5: "samples r ''cpu'' = Some [Finite 1]"
    using old [rule_format, of "''cpu''"] by (simp add: sample_plots_def)
  have 6: "samples r ''mem'' = Some []"
    using new [rule_format, of "''mem''"] mn by (simp add: sample_plots_def)
  from r 1 2 3 4 5 6 show ?thesis by blast
qed

subsection \<open>Evaluation on the sample inputs\<close>

lemmas sample_defs = sample_catalog_def sample_connector_def cpu_serie_def mem_serie_def
  gone_serie_def sample_query_def sample_env_def failing_graph_env_def sample_memory_def

lemma Itoa_0: "Itoa 0 = ''0''"
  by (simp add: Itoa_def digits.simps digit_char_def)

lemma Itoa_small: "Itoa 1 = ''1''" "Itoa 2 = ''2''"
  by (simp_all add: Itoa_def digits.simps digit_char_def)

lemmas build_defs = rrdGetData_def rrdGetData_compile_def rrdGetData_build_def collapse_type_def
  Let_def Itoa_0 NewGrapher_def NewExporter_def gadd_def xadd_def agg_args_def none_args_def
  scaled_cdef_def rrdSetGraph_def lookup_metric_def rrd_Xport_def rrdGetData_finish_def
  FreeValues_def empty_XportResult_def series_label_def

subsection \<open>The collapse of the aggregation type\<close>

text \<open>
  C2, as stated, fails: with two configured series of which one has no metric, a single
  serie is resolvable, yet the aggregation type stays \<open>Sum\<close> and the label of the only
  column is the name of the group, where no-aggregation mode labels it with the name of
  the serie.
\<close>

theorem collapse_counterexample:
  "length (filter (resolvable sample_connector) [cpu_serie, gone_serie]) = 1 \<and>
   Type (snd (rrdGetData_compile sample_connector (sample_query OperGroupTypeSum [cpu_serie, gone_serie]) [] False))
     = OperGroupTypeSum \<and>
   (\<exists>b. fst (rrdGetData_compile sample_connector (sample_query OperGroupTypeSum [cpu_serie, gone_serie]) [] False) = Inr b
      \<and> series b ''serie0'' = Some ''group'') \<and>
   (\<exists>b. fst (rrdGetData_compile sample_connector (sample_query OperGroupTypeNone [cpu_serie, gone_serie]) [] False) = Inr b
      \<and> series b ''serie0'' = Some ''cpu'')"
  by (simp add: sample_defs resolvable_def lookup_metric_def rrdGetData_compile_def rrdGetData_build_def collapse_type_def Let_def Itoa_0
      NewGrapher_def NewExporter_def gadd_def xadd_def agg_args_def none_args_def scaled_cdef_def rrdSetGraph_def)

text \<open>
  C2, amended. The test of lines 167-169 counts the configured series, not the
  resolvable ones: the aggregation type is overwritten with \<open>None\<close> exactly when it is
  not \<open>None\<close> and the query has exactly one serie, resolvable or not. In that case the
  compiled requests and labels are those of the same query in no-aggregation mode; in
  every other case the aggregation type is left as it is.
\<close>

theorem collapse_iff_single_serie:
  "snd (rrdGetData_compile conn q percentiles infoOnly) =
     (if Type q \<noteq> OperGroupTypeNone \<and> length (Series q) = 1 then q\<lparr>Type := OperGroupTypeNone\<rparr> else q) \<and>
   (if Type q \<noteq> OperGroupTypeNone \<and> length (Series q) = 1
    then fst (rrdGetData_compile conn q percentiles infoOnly) =
         fst (rrdGetData_compile conn (q\<lparr>Type := OperGroupTypeNone\<rparr>) percentiles infoOnly)
    else Type (snd (rrdGetData_compile conn q percentiles infoOnly)) = Type q)"
  by (simp add: rrdGetData_compile_def collapse_type_def)

lemma compile_again:
  "rrdGetData_compile c (snd (rrdGetData_compile c q ps io)) ps io = rrdGetData_compile c q ps io"
  by (simp add: rrdGetData_compile_def collapse_type_def)

subsection \<open>What a query run changes\<close>

lemma merge_legends_cong:
  "ValueAt d = ValueAt d' \<Longrightarrow> RowCnt d = RowCnt d' \<Longrightarrow>
   merge_legends sm d i ls r = merge_legends sm d' i ls r"
  by (induction ls arbitrary: i r) simp_all

lemma rrdGetData_finish_fst:
  "fst (rrdGetData_finish e b s t outer r m1) = fst (rrdGetData_finish e b s t outer r m2)"
  by (simp add: rrdGetData_finish_def split: sum.splits)

lemma rrdGetData_finish_frame:
  "connector (snd (rrdGetData_finish e b s t outer r m)) = connector m \<and>
   query (snd (rrdGetData_finish e b s t outer r m)) = query m"
  by (simp add: rrdGetData_finish_def FreeValues_def split: sum.splits option.splits)

lemma rrdGetData_fst_cong:
  assumes "query m1 = query m2" and "connector m1 = connector m2"
  shows "fst (rrdGetData e s t st ps io m1) = fst (rrdGetData e s t st ps io m2)"
proof (cases "rrdGetData_compile (connector m2) (query m2) ps io")
  case (Pair r q)
  show ?thesis
  proof (cases r)
    case (Inl err)
    with Pair assms show ?thesis by (simp add: rrdGetData_def)
  next
    case (Inr b)
    show ?thesis
    proof (cases "Xport e (xport b) s t st")
      case (Inl err)
      with Pair Inr assms show ?thesis
        by (simp add: rrdGetData_def rrd_Xport_def Let_def
            rrdGetData_finish_fst [of e b s t _ _ "m1\<lparr>query := q\<rparr>" "m2\<lparr>query := q\<rparr>"])
    next
      case (Inr res)
      obtain ls rows tbl where res: "res = (ls, rows, tbl)" by (cases res) auto
      have mg: "merge_legends sm \<lparr>Legends = ls, RowCnt = rows, ValueAt = tbl, cvalues = Some x\<rparr> i l r
        = merge_legends sm \<lparr>Legends = ls, RowCnt = rows, ValueAt = tbl, cvalues = Some y\<rparr> i l r" for sm x y i l r
        by (rule merge_legends_cong) simp_all
      from Pair \<open>r = Inr b\<close> Inr res assms show ?thesis
        apply (simp add: rrdGetData_def rrd_Xport_def Let_def)
        apply (intro conjI impI)
         apply (subst mg [of _ "allocated m1" _ _ _ "allocated m2"])
         apply (rule rrdGetData_finish_fst)
        apply (rule rrdGetData_finish_fst)
        done
    qed
  qed
qed

lemma rrdGetData_query:
  "query (snd (rrdGetData e s t st ps io m)) = snd (rrdGetData_compile (connector m) (query m) ps io)"
  by (auto simp: rrdGetData_def rrd_Xport_def Let_def rrdGetData_finish_frame
      split: prod.splits sum.splits)

lemma rrdGetData_connector:
  "connector (snd (rrdGetData e s t st ps io m)) = connector m"
  by (auto simp: rrdGetData_def rrd_Xport_def Let_def rrdGetData_finish_frame
      split: prod.splits sum.splits)

text \<open>
  C3, as stated, fails: a run of \<^verbatim>\<open>GetPlots\<close> on a query of one serie with aggregation
  type \<open>Sum\<close> leaves the caller's query with aggregation type \<open>None\<close>.
\<close>

theorem GetPlots_overwrites_type_counterexample:
  "query (snd (GetPlots sample_env 0 10 1 [] (sample_memory (sample_query OperGroupTypeSum [cpu_serie]))))
     \<noteq> query (sample_memory (sample_query OperGroupTypeSum [cpu_serie])) \<and>
   Type (query (snd (GetPlots sample_env 0 10 1 [] (sample_memory (sample_query OperGroupTypeSum [cpu_serie])))))
     = OperGroupTypeNone"
  by (simp add: GetPlots_def rrdGetData_query rrdGetData_compile_def collapse_type_def
      sample_memory_def sample_query_def)

text \<open>
  C3, amended. \<^verbatim>\<open>GetPlots\<close> leaves the connector as it was. Of the caller's query it
  changes at most the aggregation type, which it overwrites with \<open>None\<close> when the type
  is not \<open>None\<close> and the query has exactly one serie; name, series and scale are kept.
  A second run on the memory the first run left returns the same result as the first.
\<close>

theorem GetPlots_frame:
  "connector (snd (GetPlots e s t st ps m)) = connector m \<and>
   query (snd (GetPlots e s t st ps m)) =
     (if Type (query m) \<noteq> OperGroupTypeNone \<and> length (Series (query m)) = 1
      then (query m)\<lparr>Type := OperGroupTypeNone\<rparr> else query m) \<and>
   fst (GetPlots e s t st ps (snd (GetPlots e s t st ps m))) = fst (GetPlots e s t st ps m)"
proof -
  let ?m' = "snd (rrdGetData e s t st ps False m)"
  have c: "connector ?m' = connector m" by (rule rrdGetData_connector)
  have q: "query ?m' = snd (rrdGetData_compile (connector m) (query m) ps False)"
    by (rule rrdGetData_query)
  have q': "query ?m' =
     (if Type (query m) \<noteq> OperGroupTypeNone \<and> length (Series (query m)) = 1
      then (query m)\<lparr>Type := OperGroupTypeNone\<rparr> else query m)"
    unfolding q by (simp add: rrdGetData_compile_def collapse_type_def)
  have again: "rrdGetData_compile (connector ?m') (query ?m') ps False
      = rrdGetData_compile (connector m) (query m) ps False"
    unfolding c q by (rule compile_again)
  have "fst (rrdGetData e s t st ps False ?m') = fst (rrdGetData e s t st ps False (m\<lparr>query := query ?m'\<rparr>))"
    by (rule rrdGetData_fst_cong) (simp_all add: c)
  also have "\<dots> = fst (rrdGetData e s t st ps False m)"
  proof -
    have "rrdGetData_compile (connector m) (query ?m') ps False
        = rrdGetData_compile (connector m) (query m) ps False"
      using again c by simp
    then have "fst (rrdGetData e s t st ps False (m\<lparr>query := query ?m'\<rparr>))
        = fst (rrdGetData e s t st ps False (m\<lparr>query := query m\<rparr>))"
      by (simp add: rrdGetData_def rrd_Xport_def Let_def rrdGetData_finish_def
          split: prod.splits sum.splits)
    then show ?thesis by simp
  qed
  finally show ?thesis using c q' by (simp add: GetPlots_def)
qed

subsection \<open>The result buffer of an export\<close>

text \<open>
  C6 (the code departs from the claim). The export result is bound to a variable
  declared inside the \<^verbatim>\<open>if\<close> block of line 330, which hides the variable of line 328;
  line 354 releases the empty outer value. After a successful run the buffer of the
  export is still live, and when the graph request fails the function returns at line
  349 with the buffer live as well.
\<close>

theorem GetPlots_leaves_buffer_live:
  "(\<exists>r. fst (GetPlots sample_env 0 10 1 [] (sample_memory (sample_query OperGroupTypeNone [cpu_serie]))) = Inr r) \<and>
   buffers (snd (GetPlots sample_env 0 10 1 [] (sample_memory (sample_query OperGroupTypeNone [cpu_serie])))) = [0] \<and>
   fst (GetPlots failing_graph_env 0 10 1 [] (sample_memory (sample_query OperGroupTypeNone [cpu_serie])))
     = Inl (EngineError ''graph failed'') \<and>
   buffers (snd (GetPlots failing_graph_env 0 10 1 [] (sample_memory (sample_query OperGroupTypeNone [cpu_serie])))) = [0]"
  by (simp add: GetPlots_def build_defs sample_defs rrdParseInfo_line_def SplitN3_eval sampleParseFloat_def)

subsection \<open>The divisor of an average\<close>

lemma agg_loop_succeeds:
  "known_metrics conn ss \<Longrightarrow> \<exists>b'. agg_loop conn io name i ss b = Inr b'"
proof (induction ss arbitrary: i b)
  case Nil
  then show ?case by simp
next
  case (Cons s ss)
  then show ?case
    by (cases "Metric s")
      (auto simp: known_metrics_def resolvable_def Let_def split: option.splits)
qed

lemma agg_loop_result:
  assumes "agg_loop conn io name i ss b = Inr b'"
  shows "stack b' = (if stack b = [] then rpn_sum (agg_names name i ss)
                     else stack b @ rpn_more (agg_names name i ss)) \<and>
         GArgs (graph b') = GArgs (graph b) @ agg_defs conn name i ss \<and>
         XArgs (xport b') = (if io then XArgs (xport b) else XArgs (xport b) @ agg_defs conn name i ss) \<and>
         GDaemon (graph b') = GDaemon (graph b) \<and> XDaemon (xport b') = XDaemon (xport b) \<and>
         series b' = series b \<and> count b' = count b"
  using assms
proof (induction ss arbitrary: i b)
  case Nil
  then show ?case by (simp add: rpn_more_def)
next
  case (Cons s ss)
  show ?case
  proof (cases "Metric s")
    case None
    with Cons.prems have "agg_loop conn io name (Suc i) ss b = Inr b'" by simp
    from Cons.IH [OF this] None show ?thesis by simp
  next
    case (Some mq)
    with Cons.prems obtain m where m: "lookup_metric conn mq = Some m"
      by (cases "lookup_metric conn mq") auto
    let ?t = "name @ ''-tmp'' @ Itoa (int i)"
    let ?b = "b\<lparr>graph := gadd (graph b) (agg_args ?t m),
               xport := (if \<not> io then xadd (xport b) (agg_args ?t m) else xport b),
               stack := (if length (stack b) = 0 then stack b @ [?t] else stack b @ [?t, ''+''])\<rparr>"
    from Cons.prems have "agg_loop conn io name (Suc i) ss ?b = Inr b'"
      unfolding agg_loop.simps Some m option.case Let_def .
    from Cons.IH [OF this] Some m show ?thesis
      by (cases "agg_names name (Suc i) ss") (auto simp: gadd_def xadd_def rpn_more_def)
  qed
qed

text \<open>
  C1, as stated, fails: an \<open>Avg\<close> query with two configured series, of which one has no
  metric, has one resolvable serie, and the compiled expression divides by 2.
\<close>

theorem avg_divisor_counterexample:
  "length (filter (resolvable sample_connector) (Series (sample_query OperGroupTypeAvg [cpu_serie, gone_serie]))) = 1 \<and>
   length (Series (sample_query OperGroupTypeAvg [cpu_serie, gone_serie])) = 2 \<and>
   (\<exists>b. fst (rrdGetData_compile sample_connector (sample_query OperGroupTypeAvg [cpu_serie, gone_serie]) [] False) = Inr b \<and>
        stack b = [''serie0-tmp0'', ''2'', ''/''] \<and>
        CDef ''serie0-orig'' ''serie0-tmp0,2,/'' \<in> set (GArgs (graph b)) \<and>
        CDef ''serie0-orig'' ''serie0-tmp0,2,/'' \<in> set (XArgs (xport b)))"
  by (simp add: sample_defs resolvable_def build_defs Itoa_small)

text \<open>
  C1, amended. For an \<open>Avg\<close> query with at least two configured series, every metric
  pointer of which is in the catalog, compilation succeeds and the expression of the
  aggregate is the accumulation of the temporaries of the series that have a metric,
  followed by the number of all configured series (\<^verbatim>\<open>len(query.Series)\<close>) and the
  division operator; the graph request holds it, and so does the export request when
  samples are asked for.
\<close>

theorem avg_divisor_is_configured_count:
  assumes "Type q = OperGroupTypeAvg" and "2 \<le> length (Series q)"
    and "known_metrics conn (Series q)"
  shows "\<exists>b. rrdGetData_compile conn q ps io = (Inr b, q) \<and>
      stack b = rpn_sum (agg_names ''serie0'' 0 (Series q)) @ [Itoa (int (length (Series q))), ''/''] \<and>
      CDef ''serie0-orig'' (Join (stack b) '','') \<in> set (GArgs (graph b)) \<and>
      (\<not> io \<longrightarrow> CDef ''serie0-orig'' (Join (stack b) '','') \<in> set (XArgs (xport b)))"
proof -
  define b1 where "b1 = \<lparr>graph = (if Daemon conn \<noteq> '''' then NewGrapher\<lparr>GDaemon := Daemon conn\<rparr> else NewGrapher),
      xport = (if \<not> io \<and> Daemon conn \<noteq> '''' then NewExporter\<lparr>XDaemon := Daemon conn\<rparr> else NewExporter),
      series = Map.empty, stack = [], count = 1\<rparr>"
  from agg_loop_succeeds [OF assms(3)] obtain b2 where
    b2: "agg_loop conn io ''serie0'' 0 (Series q) b1 = Inr b2" by blast
  from agg_loop_result [OF b2] have st: "stack b2 = rpn_sum (agg_names ''serie0'' 0 (Series q))"
    by (simp add: b1_def)
  from assms(1,2) have c: "collapse_type q = q" by (simp add: collapse_type_def)
  from assms(2) have ne: "length (Series q) \<noteq> 0" by auto
  show ?thesis
    using assms(1) b2 st ne
    by (simp add: rrdGetData_compile_def c rrdGetData_build_def Let_def Itoa_0 b1_def
        rrdSetGraph_def gadd_def xadd_def)
qed

theorem avg_divisor_is_configured_count_witness:
  "\<exists>b. rrdGetData_compile sample_connector (sample_query OperGroupTypeAvg [cpu_serie, gone_serie, mem_serie]) [] False
        = (Inr b, sample_query OperGroupTypeAvg [cpu_serie, gone_serie, mem_serie]) \<and>
      stack b = [''serie0-tmp0'', ''serie0-tmp2'', ''+'', ''3'', ''/''] \<and>
      CDef ''serie0-orig'' ''serie0-tmp0,serie0-tmp2,+,3,/'' \<in> set (GArgs (graph b)) \<and>
      CDef ''serie0-orig'' ''serie0-tmp0,serie0-tmp2,+,3,/'' \<in> set (XArgs (xport b))"
proof -
  have a: "Type (sample_query OperGroupTypeAvg [cpu_serie, gone_serie, mem_serie]) = OperGroupTypeAvg"
    "2 \<le> length (Series (sample_query OperGroupTypeAvg [cpu_serie, gone_serie, mem_serie]))"
    "known_metrics sample_connector (Series (sample_query OperGroupTypeAvg [cpu_serie, gone_serie, mem_serie]))"
    by (simp_all add: sample_defs known_metrics_def resolvable_def lookup_metric_def)
  have n: "Series (sample_query OperGroupTypeAvg [cpu_serie, gone_serie, mem_serie]) = [cpu_serie, gone_serie, mem_serie]"
    by (simp add: sample_query_def)
  have i: "Itoa 3 = ''3''" by (simp add: Itoa_def digits.simps digit_char_def)
  have t: "rpn_sum (agg_names ''serie0'' 0 [cpu_serie, gone_serie, mem_serie]) = [''serie0-tmp0'', ''serie0-tmp2'']  @ [''+'']"
    by (simp add: cpu_serie_def gone_serie_def mem_serie_def rpn_more_def Itoa_0 Itoa_small eval_nat_numeral)
  from avg_divisor_is_configured_count [OF a, of "[]" False]
  obtain b where b: "rrdGetData_compile sample_connector (sample_query OperGroupTypeAvg [cpu_serie, gone_serie, mem_serie]) [] False
        = (Inr b, sample_query OperGroupTypeAvg [cpu_serie, gone_serie, mem_serie])"
    "stack b = [''serie0-tmp0'', ''serie0-tmp2'', ''+'', ''3'', ''/'']"
    "CDef ''serie0-orig'' (Join (stack b) '','') \<in> set (GArgs (graph b))"
    "CDef ''serie0-orig'' (Join (stack b) '','') \<in> set (XArgs (xport b))"
    unfolding n t by (auto simp: i)
  have "Join (stack b) '','' = ''serie0-tmp0,serie0-tmp2,+,3,/''"
    unfolding b(2) by simp
  with b show ?thesis by auto
qed

subsection \<open>The statistic keys of percentiles\<close>




lemma round_half_even_int: "r \<in> \<int> \<Longrightarrow> round_half_even r = \<lfloor>r\<rfloor>"
  by (auto simp: round_half_even_def Let_def elim!: Ints_cases)





















subsection \<open>Refreshing the catalog\<close>

lemma extends_refl: "extends st st"
  by (simp add: extends_def)

lemma extends_trans:
  assumes "extends a b" and "extends b c"
  shows "extends a c"
proof -
  from assms(1) obtain n1 where n1: "snd b = snd a @ n1"
    and k1: "\<And>s m. catalog_entry (fst a) s m \<noteq> None \<Longrightarrow> catalog_entry (fst b) s m \<noteq> None"
    and e1: "\<And>p. p \<in> set n1 \<Longrightarrow> catalog_entry (fst b) (fst p) (snd p) \<noteq> None"
    and o1: "\<And>s m d. catalog_entry (fst b) s m = Some d \<Longrightarrow>
           catalog_entry (fst a) s m = Some d \<or> (s, m) \<in> set n1"
    unfolding extends_def by blast
  from assms(2) obtain n2 where n2: "snd c = snd b @ n2"
    and k2: "\<And>s m. catalog_entry (fst b) s m \<noteq> None \<Longrightarrow> catalog_entry (fst c) s m \<noteq> None"
    and e2: "\<And>p. p \<in> set n2 \<Longrightarrow> catalog_entry (fst c) (fst p) (snd p) \<noteq> None"
    and o2: "\<And>s m d. catalog_entry (fst c) s m = Some d \<Longrightarrow>
           catalog_entry (fst b) s m = Some d \<or> (s, m) \<in> set n2"
    unfolding extends_def by blast
  have "snd c = snd a @ (n1 @ n2)" using n1 n2 by simp
  moreover have "\<forall>s m. catalog_entry (fst a) s m \<noteq> None \<longrightarrow> catalog_entry (fst c) s m \<noteq> None"
    using k1 k2 by blast
  moreover have "\<forall>p\<in>set (n1 @ n2). catalog_entry (fst c) (fst p) (snd p) \<noteq> None"
    using e1 e2 k2 by auto
  moreover have "\<forall>s m d. catalog_entry (fst c) s m = Some d \<longrightarrow>
           catalog_entry (fst a) s m = Some d \<or> (s, m) \<in> set (n1 @ n2)"
    using o1 o2 by fastforce
  ultimately show ?thesis unfolding extends_def by blast
qed

lemma extends_one:
  "extends (cat, out)
     (cat(s \<mapsto> (case cat s of None \<Rightarrow> Map.empty | Some ms \<Rightarrow> ms)(m \<mapsto> d)), out @ [(s, m)])"
  unfolding extends_def
  by (rule exI [of _ "[(s, m)]"]) (auto simp: catalog_entry_def split: option.splits)

lemma extends_add_datasets: "extends st (add_datasets s mn path dss st)"
proof (induction dss arbitrary: st)
  case Nil
  then show ?case by (simp add: extends_refl)
next
  case (Cons ds dss)
  obtain cat out where st: "st = (cat, out)" by (cases st)
  show ?case
    unfolding st add_datasets.simps Let_def
    by (rule extends_trans [OF extends_one Cons.IH])
qed

lemma extends_new_source: "extends (cat, out) (ensure_source cat s, out)"
  unfolding extends_def ensure_source_def
  by (rule exI [of _ "[]"]) (auto simp: catalog_entry_def split: option.splits)

lemma extends_walkFunc:
  assumes "walkFunc env re path v st = Inr (r, st')"
  shows "extends st st'"
proof -
  obtain cat out where st: "st = (cat, out)" by (cases st)
  have a: "extends (cat, out) (ensure_source cat s, out)" for s
    by (rule extends_new_source)
  have b: "extends (cat, out) (add_datasets s mn p dss (ensure_source cat s', out))" for s s' mn p dss
    by (rule extends_trans [OF a extends_add_datasets])
  from assms show ?thesis
    unfolding walkFunc_def Let_def st
    by (auto simp: extends_refl a b split: option.splits if_splits sum.splits)
qed

lemma extends_WalkDir:
  assumes "WalkDir (walkFunc env re path) vs st = Inr (r, st')"
  shows "extends st st'"
  using assms
proof (induction vs arbitrary: st)
  case Nil
  then show ?case by (simp add: extends_refl)
next
  case (Cons v vs)
  from Cons.prems obtain r1 st1 where s1: "walkFunc env re path v st = Inr (r1, st1)"
    by (auto split: sum.splits)
  have e1: "extends st st1" by (rule extends_walkFunc [OF s1])
  show ?case
  proof (cases r1)
    case None
    with Cons.prems s1 have "WalkDir (walkFunc env re path) vs st1 = Inr (r, st')" by simp
    from extends_trans [OF e1 Cons.IH [OF this]] show ?thesis .
  next
    case (Some err)
    with Cons.prems s1 have "st' = st1" by simp
    with e1 show ?thesis by simp
  qed
qed

lemmas refresh_defs = Refresh_def first_tree_def second_tree_def sample_regexp_def walkFunc_def
  ensure_source_def Let_def fresh_connector_def sample_connector_def sample_catalog_def
  catalog_entry_def

lemma Refresh_first:
  "Refresh first_tree fresh_connector =
     Inr \<lparr>connector_after = fresh_connector\<lparr>metrics :=
              [''host1'' \<mapsto> [''cpu/value'' \<mapsto> \<lparr>Dataset = ''value'', FilePath = ''/var/lib/rrd/host1/cpu.rrd''\<rparr>]]\<rparr>,
          sent = [(''host1'', ''cpu/value'')], errors = []\<rparr>"
  by (simp add: refresh_defs)

text \<open>
  C4, as stated, fails: after a first refresh over a tree that holds \<^verbatim>\<open>host1/cpu.rrd\<close>
  and a second refresh over a tree that holds only \<^verbatim>\<open>host2/mem.rrd\<close>, the second run
  discovers the single pair (host2, mem/value), and the catalog still holds the entry
  (host1, cpu/value) of the first run.
\<close>

theorem Refresh_keeps_old_entries_counterexample:
  "\<exists>r1 r2. Refresh first_tree fresh_connector = Inr r1 \<and>
     Refresh second_tree (connector_after r1) = Inr r2 \<and>
     sent r2 = [(''host2'', ''mem/value'')] \<and>
     catalog_entry (metrics (connector_after r2)) ''host1'' ''cpu/value''
       = Some \<lparr>Dataset = ''value'', FilePath = ''/var/lib/rrd/host1/cpu.rrd''\<rparr>"
  unfolding Refresh_first by (simp add: refresh_defs)

text \<open>
  C4, amended. \<^verbatim>\<open>Refresh\<close> writes into the catalog the connector already has and never
  clears it: after a refresh that completes, every entry of the previous catalog is
  still present, every pair sent on the output channel in this run has an entry, and
  every entry of the catalog is either an unchanged entry of the previous catalog or
  one discovered in this run.
\<close>

theorem Refresh_merges:
  assumes "Refresh env conn = Inr res"
  shows "(\<forall>s m. catalog_entry (metrics conn) s m \<noteq> None \<longrightarrow>
            catalog_entry (metrics (connector_after res)) s m \<noteq> None) \<and>
         (\<forall>p\<in>set (sent res). catalog_entry (metrics (connector_after res)) (fst p) (snd p) \<noteq> None) \<and>
         (\<forall>s m d. catalog_entry (metrics (connector_after res)) s m = Some d \<longrightarrow>
            catalog_entry (metrics conn) s m = Some d \<or> (s, m) \<in> set (sent res))"
proof -
  have "extends (metrics conn, []) (metrics (connector_after res), sent res)"
    using assms unfolding Refresh_def
    by (auto simp: extends_refl split: option.splits if_splits sum.splits prod.splits
        dest: extends_WalkDir)
  then show ?thesis unfolding extends_def by auto
qed

theorem Refresh_merges_witness:
  "\<exists>res. Refresh second_tree sample_connector = Inr res \<and>
     sent res = [(''host2'', ''mem/value'')] \<and>
     catalog_entry (metrics (connector_after res)) ''host1'' ''cpu/value'' \<noteq> None \<and>
     catalog_entry (metrics (connector_after res)) ''host2'' ''mem/value'' \<noteq> None \<and>
     catalog_entry (metrics (connector_after res)) ''host3'' ''cpu/value'' = None"
proof -
  obtain res where r: "Refresh second_tree sample_connector = Inr res"
    and s: "sent res = [(''host2'', ''mem/value'')]"
    by (simp add: refresh_defs)
  have old: "catalog_entry (metrics sample_connector) ''host1'' ''cpu/value'' \<noteq> None"
    "catalog_entry (metrics sample_connector) ''host3'' ''cpu/value'' = None"
    by (simp_all add: catalog_entry_def sample_connector_def sample_catalog_def)
  from Refresh_merges [OF r] have
    k: "\<And>s m. catalog_entry (metrics sample_connector) s m \<noteq> None \<Longrightarrow>
            catalog_entry (metrics (connector_after res)) s m \<noteq> None"
    and n: "\<And>p. p \<in> set (sent res) \<Longrightarrow> catalog_entry (metrics (connector_after res)) (fst p) (snd p) \<noteq> None"
    and o: "\<And>s m d. catalog_entry (metrics (connector_after res)) s m = Some d \<Longrightarrow>
            catalog_entry (metrics sample_connector) s m = Some d \<or> (s, m) \<in> set (sent res)"
    by blast+
  have "catalog_entry (metrics (connector_after res)) ''host1'' ''cpu/value'' \<noteq> None"
    using k old(1) by blast
  moreover have "catalog_entry (metrics (connector_after res)) ''host2'' ''mem/value'' \<noteq> None"
    using n [of "(''host2'', ''mem/value'')"] s by simp
  moreover have "catalog_entry (metrics (connector_after res)) ''host3'' ''cpu/value'' = None"
  proof (cases "catalog_entry (metrics (connector_after res)) ''host3'' ''cpu/value''")
    case None
    then show ?thesis .
  next
    case (Some d)
    from o [OF Some] old(2) s show ?thesis by simp
  qed
  ultimately show ?thesis using r s by blast
qed

subsection \<open>Expressions of the engine\<close>

lemma split_on_nonempty: "split_on c s \<noteq> []"
  by (induction s) (auto split: list.splits)

lemma split_on_nosep: "c \<notin> set t \<Longrightarrow> split_on c t = [t]"
  by (induction t) (auto split: list.splits)

lemma split_on_append: "c \<notin> set t \<Longrightarrow> split_on c (t @ c # rest) = t # split_on c rest"
  by (induction t) (auto split: list.splits)

lemma split_on_Join:
  "toks \<noteq> [] \<Longrightarrow> \<forall>t\<in>set toks. c \<notin> set t \<Longrightarrow> split_on c (Join toks [c]) = toks"
proof (induction toks "[c]" rule: Join.induct)
  case 1
  then show ?case by simp
next
  case (2 a)
  then show ?case by (simp add: split_on_nosep)
next
  case (3 a b rest)
  then show ?case by (simp add: split_on_append)
qed

lemma digit_cases: "d < 10 \<Longrightarrow> d = 0 \<or> d = 1 \<or> d = 2 \<or> d = 3 \<or> d = 4 \<or> d = 5 \<or> d = 6 \<or> d = 7 \<or> d = 8 \<or> d = (9::nat)"
  by arith

lemma digit_char_props:
  assumes "d < 10"
  shows "is_digit (digit_char d)" and "of_char (digit_char d) - 48 = d"
  using digit_cases [OF assms] by (auto simp: digit_char_def is_digit_def)

lemma digits_all_digit: "\<forall>c\<in>set (digits n). is_digit c"
proof (induction n rule: digits.induct)
  case (1 n)
  show ?case
  proof (cases "n < 10")
    case True
    then show ?thesis by (subst digits.simps) (simp add: digit_char_props)
  next
    case False
    with 1 have "\<forall>c\<in>set (digits (n div 10)). is_digit c" by simp
    moreover have "is_digit (digit_char (n mod 10))" by (rule digit_char_props) simp
    ultimately show ?thesis using False by (subst digits.simps) simp
  qed
qed

lemma digits_nonempty: "digits n \<noteq> []"
  by (subst digits.simps) simp

lemma digits_value_snoc: "digits_value (s @ [c]) = 10 * digits_value s + (of_char c - 48)"
  by (simp add: digits_value_def)

lemma digits_value_digits: "digits_value (digits n) = n"
proof (induction n rule: digits.induct)
  case (1 n)
  show ?case
  proof (cases "n < 10")
    case True
    then show ?thesis
      by (subst digits.simps) (simp add: digits_value_def digit_char_props)
  next
    case False
    with 1 have "digits_value (digits (n div 10)) = n div 10" by simp
    moreover have "of_char (digit_char (n mod 10)) - 48 = n mod 10"
      by (rule digit_char_props) simp
    ultimately show ?thesis using False
      by (subst digits.simps) (simp add: digits_value_snoc)
  qed
qed

lemma digits_inj: "digits n = digits m \<Longrightarrow> n = m"
  by (metis digits_value_digits)

lemma is_digit_not: "\<not> is_digit CHR '',''" "\<not> is_digit CHR ''-''" "\<not> is_digit CHR ''s''"
  by (simp_all add: is_digit_def)

lemma digits_no_char: "CHR '','' \<notin> set (digits n)" "CHR ''-'' \<notin> set (digits n)"
  using digits_all_digit [of n] is_digit_not by blast+

lemma Itoa_nat: "Itoa (int n) = digits n"
  by (simp add: Itoa_def)

lemma parse_number_digits: "parse_number (digits n) = Some (real n)"
proof -
  have t: "takeWhile is_digit (digits n) = digits n" "dropWhile is_digit (digits n) = []"
    using digits_all_digit [of n] by (simp_all add: takeWhile_eq_all_conv)
  obtain c r where cr: "digits n = c # r" using digits_nonempty [of n] by (cases "digits n") auto
  then have "is_digit c" using digits_all_digit [of n] by simp
  then have "c \<noteq> CHR ''-''" using is_digit_not by auto
  then have "parse_number (digits n) = parse_unsigned (digits n)"
    by (simp add: parse_number_def cr)
  also have "\<dots> = Some (real (digits_value (digits n)))"
    unfolding parse_unsigned_def Let_def t using digits_nonempty [of n] by simp
  finally show ?thesis by (simp add: digits_value_digits)
qed

lemma parse_number_ident: "parse_number (CHR ''s'' # r) = None"
  by (simp add: parse_number_def parse_unsigned_def is_digit_not)

lemma parse_number_ops:
  "parse_number ''UN'' = None" "parse_number ''IF'' = None" "parse_number ''+'' = None"
  "parse_number ''/'' = None" "parse_number ''*'' = None" "parse_number ''0'' = Some 0"
  by (simp_all add: parse_number_def parse_unsigned_def is_digit_def digits_value_def)

lemma rpn_token_ident:
  "rpn_token vars (CHR ''s'' # r) st = (case vars (CHR ''s'' # r) of Some v \<Rightarrow> Some (v # st) | None \<Rightarrow> None)"
  by (simp add: rpn_token_def parse_number_ident)

lemma rpn_token_ops:
  "rpn_token vars ''UN'' (a # st) = Some ((if a = NaN then Finite 1 else Finite 0) # st)"
  "rpn_token vars ''IF'' (c # b # a # st) = Some ((if a \<noteq> Finite 0 then b else c) # st)"
  "rpn_token vars ''+'' (b # a # st) = Some (float64_add a b # st)"
  "rpn_token vars ''/'' (b # a # st) = Some (float64_div a b # st)"
  "rpn_token vars ''0'' st = Some (Finite 0 # st)"
  by (simp_all add: rpn_token_def parse_number_ops)

lemma rpn_token_number: "rpn_token vars (digits n) st = Some (Finite (real n) # st)"
  by (simp add: rpn_token_def parse_number_digits)

lemma rpn_run_append:
  "rpn_run vars (a @ b) st = (case rpn_run vars a st of None \<Rightarrow> None | Some st' \<Rightarrow> rpn_run vars b st')"
  by (induction a arbitrary: st) (auto split: option.splits)

subsection \<open>The value of an aggregate\<close>

lemma subst_eval:
  assumes "vars (CHR ''s'' # r @ ''-ori'') = Some v" and "CHR '','' \<notin> set r"
  shows "rpn_eval vars ((CHR ''s'' # r) @ ''-ori,UN,0,'' @ (CHR ''s'' # r) @ ''-ori,IF'') = Some (zero_unknown v)"
proof -
  let ?o = "CHR ''s'' # r @ ''-ori''"
  have j: "(CHR ''s'' # r) @ ''-ori,UN,0,'' @ (CHR ''s'' # r) @ ''-ori,IF''
      = Join [?o, ''UN'', ''0'', ?o, ''IF''] '',''" by simp
  have s: "split_on CHR '','' (Join [?o, ''UN'', ''0'', ?o, ''IF''] '','') = [?o, ''UN'', ''0'', ?o, ''IF'']"
    by (rule split_on_Join) (use assms(2) in auto)
  show ?thesis
    unfolding j rpn_eval_def s
    by (simp add: rpn_token_ident rpn_token_ops assms(1) zero_unknown_def)
qed

lemma digits_eq_iff: "digits i = digits j \<longleftrightarrow> i = j"
  using digits_inj by auto

lemma digits_not_ori: "digits i \<noteq> digits j @ ''-ori''" "digits j @ ''-ori'' \<noteq> digits i"
proof -
  have "digits i \<noteq> digits j @ ''-ori''"
  proof
    assume "digits i = digits j @ ''-ori''"
    then have "CHR ''-'' \<in> set (digits i)" by simp
    with digits_no_char(2) show False by blast
  qed
  then show "digits i \<noteq> digits j @ ''-ori''" "digits j @ ''-ori'' \<noteq> digits i" by auto
qed

lemmas tmp_name_distinct = digits_eq_iff digits_not_ori

lemma agg_vars_frame:
  assumes "\<And>j. i \<le> j \<Longrightarrow> x \<noteq> ''serie0-tmp'' @ digits j \<and> x \<noteq> ''serie0-tmp'' @ digits j @ ''-ori''"
  shows "agg_vars conn reading ''serie0'' i ss vars x = vars x"
  using assms
proof (induction ss arbitrary: i vars)
  case Nil
  then show ?case by simp
next
  case (Cons s ss)
  have later: "\<And>j. Suc i \<le> j \<Longrightarrow> x \<noteq> ''serie0-tmp'' @ digits j \<and> x \<noteq> ''serie0-tmp'' @ digits j @ ''-ori''"
    using Cons.prems by simp
  have here: "x \<noteq> ''serie0-tmp'' @ digits i" "x \<noteq> ''serie0-tmp'' @ digits i @ ''-ori''"
    using Cons.prems [of i] by simp_all
  show ?case
  proof (cases "Metric s")
    case None
    then show ?thesis using Cons.IH [OF later] by simp
  next
    case (Some mq)
    show ?thesis
    proof (cases "lookup_metric conn mq")
      case None
      with Some show ?thesis by simp
    next
      case (Some m)
      with \<open>Metric s = Some mq\<close> here show ?thesis
        using Cons.IH [OF later] by (simp add: Itoa_nat)
    qed
  qed
qed

lemma agg_vars_names:
  assumes "known_metrics conn ss"
  shows "map (agg_vars conn reading ''serie0'' i ss vars) (agg_names ''serie0'' i ss)
       = map (\<lambda>v. Some (zero_unknown v)) (agg_readings conn reading ss)"
  using assms
proof (induction ss arbitrary: i vars)
  case Nil
  then show ?case by simp
next
  case (Cons s ss)
  from Cons.prems have k: "known_metrics conn ss" by (simp add: known_metrics_def)
  show ?case
  proof (cases "Metric s")
    case None
    then show ?thesis using Cons.IH [OF k] by simp
  next
    case (Some mq)
    with Cons.prems obtain m where m: "lookup_metric conn mq = Some m"
      by (auto simp: known_metrics_def resolvable_def)
    let ?t = "''serie0-tmp'' @ digits i"
    let ?v = "reading (FilePath m) (Dataset m)"
    define vars' where "vars' = vars(?t @ ''-ori'' \<mapsto> ?v, ?t \<mapsto> zero_unknown ?v)"
    have "agg_vars conn reading ''serie0'' (Suc i) ss vars' ?t = vars' ?t"
      by (rule agg_vars_frame) (auto simp: tmp_name_distinct)
    then have head: "agg_vars conn reading ''serie0'' (Suc i) ss vars' ?t = Some (zero_unknown ?v)"
      by (simp add: vars'_def)
    have step_names: "agg_names ''serie0'' i (s # ss) = ?t # agg_names ''serie0'' (Suc i) ss"
      using Some by (simp add: Itoa_nat)
    have step_vars: "agg_vars conn reading ''serie0'' i (s # ss) vars
        = agg_vars conn reading ''serie0'' (Suc i) ss vars'"
      using Some m by (simp add: Itoa_nat vars'_def)
    have step_read: "agg_readings conn reading (s # ss) = ?v # agg_readings conn reading ss"
      using Some m by simp
    show ?thesis
      unfolding step_names step_vars step_read list.map head Cons.IH [OF k, of "Suc i" vars'] ..
  qed
qed

lemma agg_names_shape: "n \<in> set (agg_names ''serie0'' i ss) \<Longrightarrow> \<exists>j. n = ''serie0-tmp'' @ digits j"
  by (induction ss arbitrary: i) (auto simp: Itoa_nat split: option.splits)

lemma row_vars_agg_defs:
  assumes "known_metrics conn ss"
  shows "row_vars reading (agg_defs conn ''serie0'' i ss @ rest) vars
       = row_vars reading rest (agg_vars conn reading ''serie0'' i ss vars)"
  using assms
proof (induction ss arbitrary: i vars)
  case Nil
  then show ?case by simp
next
  case (Cons s ss)
  from Cons.prems have k: "known_metrics conn ss" by (simp add: known_metrics_def)
  show ?case
  proof (cases "Metric s")
    case None
    then show ?thesis using Cons.IH [OF k] by simp
  next
    case (Some mq)
    with Cons.prems obtain m where m: "lookup_metric conn mq = Some m"
      by (auto simp: known_metrics_def resolvable_def)
    let ?r = "''erie0-tmp'' @ digits i"
    let ?t = "CHR ''s'' # ?r"
    let ?v = "reading (FilePath m) (Dataset m)"
    define vars1 where "vars1 = vars(?t @ ''-ori'' \<mapsto> ?v)"
    define vars2 where "vars2 = vars1(?t \<mapsto> zero_unknown ?v)"
    define tail where "tail = agg_defs conn ''serie0'' (Suc i) ss @ rest"
    have c: "CHR '','' \<notin> set ?r" using digits_no_char(1) [of i] by simp
    have v: "vars1 (CHR ''s'' # ?r @ ''-ori'') = Some ?v" by (simp add: vars1_def)
    have e: "rpn_eval vars1 (?t @ ''-ori,UN,0,'' @ ?t @ ''-ori,IF'') = Some (zero_unknown ?v)"
      by (rule subst_eval [of vars1 ?r ?v, OF v c])
    have defs: "agg_defs conn ''serie0'' i (s # ss) @ rest
        = Def (?t @ ''-ori'') (FilePath m) (Dataset m) ''AVERAGE'' #
          CDef ?t (?t @ ''-ori,UN,0,'' @ ?t @ ''-ori,IF'') # tail"
      using Some m by (simp add: agg_args_def Itoa_nat tail_def)
    have "row_vars reading (agg_defs conn ''serie0'' i (s # ss) @ rest) vars
        = row_vars reading (CDef ?t (?t @ ''-ori,UN,0,'' @ ?t @ ''-ori,IF'') # tail) vars1"
      unfolding defs vars1_def by (simp only: row_vars.simps)
    also have "\<dots> = row_vars reading tail vars2"
      unfolding vars2_def by (simp only: row_vars.simps e option.case)
    also have "\<dots> = row_vars reading rest (agg_vars conn reading ''serie0'' (Suc i) ss vars2)"
      unfolding tail_def by (rule Cons.IH [OF k])
    also have "agg_vars conn reading ''serie0'' (Suc i) ss vars2
        = agg_vars conn reading ''serie0'' i (s # ss) vars"
      using Some m by (simp add: Itoa_nat vars2_def vars1_def)
    finally show ?thesis .
  qed
qed

lemma rpn_more_run:
  assumes "map vars names = map Some vals" and "\<forall>n\<in>set names. \<exists>r. n = CHR ''s'' # r"
  shows "rpn_run vars (rpn_more names) (acc # st) = Some (foldl float64_add acc vals # st)"
  using assms
proof (induction names arbitrary: acc vals)
  case Nil
  then show ?case by (simp add: rpn_more_def)
next
  case (Cons n names)
  from Cons.prems(1) obtain v vs where vals: "vals = v # vs" and v: "vars n = Some v"
    and vs: "map vars names = map Some vs" by (cases vals) auto
  from Cons.prems(2) obtain r where n: "n = CHR ''s'' # r" by auto
  have "rpn_run vars (rpn_more (n # names)) (acc # st)
      = rpn_run vars (rpn_more names) (float64_add acc v # st)"
    using v unfolding n by (simp add: rpn_more_def rpn_token_ident rpn_token_ops)
  also have "\<dots> = Some (foldl float64_add (float64_add acc v) vs # st)"
    using Cons.IH [OF vs] Cons.prems(2) by simp
  finally show ?case by (simp add: vals)
qed

lemma rpn_sum_run:
  assumes "map vars (n # names) = map Some (v # vals)" and "\<forall>n\<in>set (n # names). \<exists>r. n = CHR ''s'' # r"
  shows "rpn_run vars (rpn_sum (n # names)) [] = Some [foldl float64_add v vals]"
proof -
  from assms(2) obtain r where n: "n = CHR ''s'' # r" by auto
  from assms(1) have v: "vars n = Some v" and vs: "map vars names = map Some vals" by simp_all
  have "rpn_run vars (rpn_sum (n # names)) [] = rpn_run vars (rpn_more names) [v]"
    using v unfolding n by (simp add: rpn_token_ident)
  then show ?thesis using rpn_more_run [OF vs, of v "[]"] assms(2) by simp
qed

lemma exported_append: "exported (a @ b) = exported a @ exported b"
  by (induction a rule: exported.induct) simp_all

lemma exported_agg_defs: "exported (agg_defs conn name i ss) = []"
  by (induction ss arbitrary: i) (auto simp: agg_args_def exported_append split: option.splits)

lemma agg_names_length:
  "known_metrics conn ss \<Longrightarrow> length (agg_names name i ss) = length (agg_readings conn reading ss)"
  by (induction ss arbitrary: i)
    (auto simp: known_metrics_def resolvable_def split: option.splits)

lemma agg_names_nonempty:
  "\<exists>s\<in>set ss. Metric s \<noteq> None \<Longrightarrow> agg_names name i ss \<noteq> []"
  by (induction ss arbitrary: i) (auto split: option.splits)

lemma agg_defs_subst:
  "known_metrics conn ss \<Longrightarrow> n \<in> set (agg_names name i ss) \<Longrightarrow>
   CDef n (n @ ''-ori,UN,0,'' @ n @ ''-ori,IF'') \<in> set (agg_defs conn name i ss)"
  by (induction ss arbitrary: i)
    (auto simp: known_metrics_def resolvable_def agg_args_def split: option.splits)

lemma foldl_add_finite:
  "foldl float64_add (Finite a) (map (\<lambda>v. Finite (f v)) vs) = Finite (a + sum_list (map f vs))"
  by (induction vs arbitrary: a) (simp_all add: add.assoc)

lemma zero_unknown_finite: "finite_or_unknown v \<Longrightarrow> zero_unknown v = Finite (known_value v)"
  by (cases v) (simp_all add: finite_or_unknown_def zero_unknown_def known_value_def)

lemma sum_of_known:
  assumes "\<forall>v\<in>set (v0 # vs). finite_or_unknown v"
  shows "foldl float64_add (zero_unknown v0) (map zero_unknown vs)
       = Finite (sum_list (map known_value (v0 # vs)))"
proof -
  have a: "map zero_unknown vs = map (\<lambda>v. Finite (known_value v)) vs"
    using assms by (simp add: zero_unknown_finite)
  have b: "zero_unknown v0 = Finite (known_value v0)"
    using assms by (simp add: zero_unknown_finite)
  show ?thesis unfolding a b foldl_add_finite by simp
qed

text \<open>The value of the aggregate in one row.\<close>

lemma row_total:
  assumes k: "known_metrics conn ss" and ne: "\<exists>s\<in>set ss. Metric s \<noteq> None"
    and st: "st = rpn_sum (agg_names ''serie0'' 0 ss) @ (if avg then [digits n, ''/''] else [])"
    and vals: "agg_readings conn reading ss = v0 # vs"
  shows "\<exists>vars. row_vars reading
           (agg_defs conn ''serie0'' 0 ss @
              [CDef ''serie0-orig'' (Join st '',''), CDef ''serie0'' ''serie0-orig'',
               XportDef ''serie0'' ''serie0'']) Map.empty = Some vars \<and>
         vars ''serie0'' =
           Some (if avg
                 then float64_div (foldl float64_add (zero_unknown v0) (map zero_unknown vs)) (Finite (real n))
                 else foldl float64_add (zero_unknown v0) (map zero_unknown vs))"
proof -
  define names where "names = agg_names ''serie0'' 0 ss"
  define vars1 where "vars1 = agg_vars conn reading ''serie0'' 0 ss Map.empty"
  define total where "total = foldl float64_add (zero_unknown v0) (map zero_unknown vs)"
  define res where "res = (if avg then float64_div total (Finite (real n)) else total)"
  have shape: "\<forall>x\<in>set names. \<exists>j. x = ''serie0-tmp'' @ digits j"
    unfolding names_def using agg_names_shape by blast
  then have s_first: "\<forall>x\<in>set names. \<exists>r. x = CHR ''s'' # r" by auto
  have nocomma: "\<forall>x\<in>set names. CHR '','' \<notin> set x"
    using shape digits_no_char(1) by auto
  have m: "map vars1 names = map Some (zero_unknown v0 # map zero_unknown vs)"
    unfolding vars1_def names_def agg_vars_names [OF k] vals by simp
  then obtain n0 ns where names: "names = n0 # ns" by (cases names) auto
  have run: "rpn_run vars1 (rpn_sum names) [] = Some [total]"
    unfolding names total_def
    by (rule rpn_sum_run) (use m s_first names in auto)
  have run2: "rpn_run vars1 st [] = Some [res]"
    unfolding st names_def [symmetric] res_def
    by (simp add: rpn_run_append run rpn_token_number rpn_token_ops)
  have st_ne: "st \<noteq> []" unfolding st names_def [symmetric] names by simp
  have st_nc: "\<forall>t\<in>set st. CHR '','' \<notin> set t"
    unfolding st names_def [symmetric] names
    using nocomma names digits_no_char(1) by (auto simp: rpn_more_def)
  have e1: "rpn_eval vars1 (Join st '','') = Some res"
    unfolding rpn_eval_def split_on_Join [OF st_ne st_nc] run2 by simp
  have e2: "rpn_eval (vars1(''serie0-orig'' \<mapsto> res)) ''serie0-orig'' = Some res"
    by (simp add: rpn_eval_def split_on_nosep rpn_token_ident)
  have "row_vars reading
           (agg_defs conn ''serie0'' 0 ss @
              [CDef ''serie0-orig'' (Join st '',''), CDef ''serie0'' ''serie0-orig'',
               XportDef ''serie0'' ''serie0'']) Map.empty
      = Some (vars1(''serie0-orig'' \<mapsto> res, ''serie0'' \<mapsto> res))"
    unfolding row_vars_agg_defs [OF k] vars1_def [symmetric]
    by (simp only: row_vars.simps e1 e2 option.case)
  then show ?thesis unfolding res_def total_def by simp
qed

lemma compile_agg:
  assumes t: "Type q = OperGroupTypeSum \<or> Type q = OperGroupTypeAvg"
    and len: "2 \<le> length (Series q)" and k: "known_metrics conn (Series q)"
  shows "\<exists>b. rrdGetData_compile conn q ps False = (Inr b, q) \<and>
      XArgs (xport b) = agg_defs conn ''serie0'' 0 (Series q) @
        [CDef ''serie0-orig''
           (Join (rpn_sum (agg_names ''serie0'' 0 (Series q)) @
                  (if Type q = OperGroupTypeAvg then [digits (length (Series q)), ''/''] else [])) '',''),
         scaled_cdef ''serie0'' ''serie0-orig'' (Scale q),
         XportDef ''serie0'' ''serie0''] \<and>
      set (agg_defs conn ''serie0'' 0 (Series q)) \<subseteq> set (GArgs (graph b)) \<and>
      series b = [''serie0'' \<mapsto> Name q]"
proof -
  define b1 where "b1 = \<lparr>graph = (if Daemon conn \<noteq> '''' then NewGrapher\<lparr>GDaemon := Daemon conn\<rparr> else NewGrapher),
      xport = (if Daemon conn \<noteq> '''' then NewExporter\<lparr>XDaemon := Daemon conn\<rparr> else NewExporter),
      series = Map.empty, stack = [], count = 1\<rparr>"
  from agg_loop_succeeds [OF k] obtain b2 where
    b2: "agg_loop conn False ''serie0'' 0 (Series q) b1 = Inr b2" by blast
  from agg_loop_result [OF b2] have
    st: "stack b2 = rpn_sum (agg_names ''serie0'' 0 (Series q))"
    and ga: "GArgs (graph b2) = GArgs (graph b1) @ agg_defs conn ''serie0'' 0 (Series q)"
    and xa: "XArgs (xport b2) = XArgs (xport b1) @ agg_defs conn ''serie0'' 0 (Series q)"
    and se: "series b2 = series b1"
    by (simp_all add: b1_def)
  have x0: "XArgs (xport b1) = []" by (simp add: b1_def NewExporter_def)
  from t len have c: "collapse_type q = q" by (auto simp: collapse_type_def)
  from len have ne: "length (Series q) \<noteq> 0" by auto
  show ?thesis
    using t b2 st ga xa x0 se ne
    by (auto simp: rrdGetData_compile_def c rrdGetData_build_def Let_def Itoa_0 b1_def
        rrdSetGraph_def gadd_def xadd_def Itoa_nat)
qed

text \<open>
  C7. For a \<open>Sum\<close> or \<open>Avg\<close> query with at least two configured series, no group
  scale, every metric pointer in the catalog and at least one serie with a metric, each
  such serie gets, in the graph request and in the export request, a temporary defined
  as its raw dataset with the unknown value replaced by zero
  (\<open><tmp>-ori,UN,0,<tmp>-ori,IF\<close>). Run on the engine of the specification, over rows
  whose readings are finite or unknown, with well-formed statistic lines, \<^verbatim>\<open>GetPlots\<close>
  returns a result whose sample sequence under the name of the group holds, at every
  row, the sum of the readings of these series with zero for every unknown one for
  \<open>Sum\<close>, and that sum divided by the number of configured series for \<open>Avg\<close>.
\<close>

theorem sum_zero_for_unknown:
  assumes t: "Type (query mem) = OperGroupTypeSum \<or> Type (query mem) = OperGroupTypeAvg"
    and len: "2 \<le> length (Series (query mem))"
    and sc: "Scale (query mem) = Finite 0"
    and k: "known_metrics (connector mem) (Series (query mem))"
    and ne: "\<exists>s\<in>set (Series (query mem)). Metric s \<noteq> None"
    and wf: "\<forall>v\<in>set info. 2 \<le> commas v"
    and fin: "\<forall>r<rows. \<forall>v\<in>set (agg_readings (connector mem) (\<lambda>f d. readings f d r) (Series (query mem))).
                finite_or_unknown v"
  shows "\<exists>b res.
      rrdGetData_compile (connector mem) (query mem) ps False = (Inr b, query mem) \<and>
      (\<forall>n\<in>set (agg_names ''serie0'' 0 (Series (query mem))).
          CDef n (n @ ''-ori,UN,0,'' @ n @ ''-ori,IF'') \<in> set (GArgs (graph b)) \<and>
          CDef n (n @ ''-ori,UN,0,'' @ n @ ''-ori,IF'') \<in> set (XArgs (xport b))) \<and>
      fst (GetPlots (spec_env readings rows (\<lambda>g s t. Inr info) parse) startTime endTime step ps mem)
        = Inr res \<and>
      samples res (Name (query mem)) =
        Some (map (\<lambda>r. if Type (query mem) = OperGroupTypeAvg
                        then Finite (sum_list (map known_value
                               (agg_readings (connector mem) (\<lambda>f d. readings f d r) (Series (query mem))))
                               / real (length (Series (query mem))))
                        else Finite (sum_list (map known_value
                               (agg_readings (connector mem) (\<lambda>f d. readings f d r) (Series (query mem))))))
                  [0..<rows])"
proof -
  let ?conn = "connector mem" and ?q = "query mem"
  let ?ss = "Series ?q"
  let ?avg = "Type ?q = OperGroupTypeAvg"
  define st where "st = rpn_sum (agg_names ''serie0'' 0 ?ss) @
                  (if ?avg then [digits (length ?ss), ''/''] else [])"
  define prog where "prog = agg_defs ?conn ''serie0'' 0 ?ss @
        [CDef ''serie0-orig'' (Join st '',''), CDef ''serie0'' ''serie0-orig'',
         XportDef ''serie0'' ''serie0'']"
  define want where "want = (\<lambda>r. if ?avg
        then Finite (sum_list (map known_value (agg_readings ?conn (\<lambda>f d. readings f d r) ?ss))
               / real (length ?ss))
        else Finite (sum_list (map known_value (agg_readings ?conn (\<lambda>f d. readings f d r) ?ss))))"
  from compile_agg [OF t len k, of ps] obtain b where
    comp: "rrdGetData_compile ?conn ?q ps False = (Inr b, ?q)"
    and xa: "XArgs (xport b) = prog"
    and ga: "set (agg_defs ?conn ''serie0'' 0 ?ss) \<subseteq> set (GArgs (graph b))"
    and se: "series b = [''serie0'' \<mapsto> Name ?q]"
    unfolding prog_def st_def by (auto simp: sc scaled_cdef_def)
  have subst: "\<forall>n\<in>set (agg_names ''serie0'' 0 ?ss).
          CDef n (n @ ''-ori,UN,0,'' @ n @ ''-ori,IF'') \<in> set (GArgs (graph b)) \<and>
          CDef n (n @ ''-ori,UN,0,'' @ n @ ''-ori,IF'') \<in> set (XArgs (xport b))"
    using agg_defs_subst [OF k] ga unfolding xa prog_def by auto
  have ex: "exported prog = [(''serie0'', ''serie0'')]"
    unfolding prog_def by (simp add: exported_append exported_agg_defs)
  have n0: "length ?ss \<noteq> 0" using len by auto
  have row: "row_ok (\<lambda>f d. readings f d r) prog \<and> row_value (\<lambda>f d. readings f d r) prog 0 = want r"
    if r: "r < rows" for r
  proof -
    let ?rd = "\<lambda>f d. readings f d r"
    have "agg_readings ?conn ?rd ?ss \<noteq> []"
      using agg_names_nonempty [OF ne, of "''serie0''" 0]
        agg_names_length [OF k, of "''serie0''" 0 ?rd] by auto
    then obtain v0 vs where vals: "agg_readings ?conn ?rd ?ss = v0 # vs"
      by (cases "agg_readings ?conn ?rd ?ss") auto
    from fin r vals have f: "\<forall>v\<in>set (v0 # vs). finite_or_unknown v" by auto
    from row_total [OF k ne st_def vals] obtain vars where
      rv: "row_vars ?rd prog Map.empty = Some vars"
      and v: "vars ''serie0'' =
           Some (if ?avg
                 then float64_div (foldl float64_add (zero_unknown v0) (map zero_unknown vs))
                        (Finite (real (length ?ss)))
                 else foldl float64_add (zero_unknown v0) (map zero_unknown vs))"
      unfolding prog_def by blast
    have "vars ''serie0'' = Some (want r)"
      unfolding v want_def vals sum_of_known [OF f] using n0 by simp
    with rv ex show ?thesis by (simp add: row_ok_def row_value_def)
  qed
  have xp: "spec_Xport readings rows (xport b) =
      Inr ([''serie0''], rows, (\<lambda>l r. row_value (\<lambda>f d. readings f d r) prog l))"
    using row by (simp add: spec_Xport_def xa ex list_all_iff)
  define result0 where "result0 =
      [Name ?q \<mapsto> \<lparr>Plots = map (\<lambda>i. row_value (\<lambda>f d. readings f d i) prog 0) [0..<rows],
                     Info = Map.empty\<rparr>]"
  have pl: "map (\<lambda>i. row_value (\<lambda>f d. readings f d i) prog 0) [0..<rows] = map want [0..<rows]"
    using row by simp
  from wf have "\<And>e. rrdParseInfo parse info result0 \<noteq> Inl e"
    unfolding rrdParseInfo_Inl by (auto simp: not_less)
  then obtain res where res: "rrdParseInfo parse info result0 = Inr res"
    by (cases "rrdParseInfo parse info result0") auto
  have r0: "result0 (Name ?q) = Some \<lparr>Plots = map want [0..<rows], Info = Map.empty\<rparr>"
    by (simp add: result0_def pl)
  from rrdParseInfo_keeps_samples [OF res r0]
  have sm: "samples res (Name ?q) = Some (map want [0..<rows])"
    by (auto simp: samples_def)
  have "fst (GetPlots (spec_env readings rows (\<lambda>g s t. Inr info) parse) startTime endTime step ps mem)
      = Inr res"
    using res
    by (simp add: GetPlots_def rrdGetData_def comp rrd_Xport_def spec_env_def xp Let_def
        rrdGetData_finish_def se series_label_def result0_def)
  with comp subst sm show ?thesis unfolding want_def by blast
qed

theorem sum_zero_for_unknown_witness:
  "\<exists>res. fst (GetPlots (spec_env sample_readings 2 (\<lambda>g s t. Inr [''group,min,1.5'']) sampleParseFloat)
              0 10 1 [] (sample_memory (sample_query OperGroupTypeSum [cpu_serie, gone_serie, mem_serie])))
          = Inr res \<and>
        samples res ''group'' = Some [Finite 2, Finite 6]"
proof -
  let ?mem = "sample_memory (sample_query OperGroupTypeSum [cpu_serie, gone_serie, mem_serie])"
  have q: "query ?mem = sample_query OperGroupTypeSum [cpu_serie, gone_serie, mem_serie]"
    "connector ?mem = sample_connector" by (simp_all add: sample_memory_def)
  have r: "agg_readings sample_connector (\<lambda>f d. sample_readings f d r) [cpu_serie, gone_serie, mem_serie]
      = [sample_readings ''/var/lib/rrd/host1/cpu.rrd'' ''value'' r,
         sample_readings ''/var/lib/rrd/host1/mem.rrd'' ''value'' r]" for r
    by (simp add: cpu_serie_def gone_serie_def mem_serie_def lookup_metric_def
        sample_connector_def sample_catalog_def)
  have h: "Type (query ?mem) = OperGroupTypeSum \<or> Type (query ?mem) = OperGroupTypeAvg"
    "2 \<le> length (Series (query ?mem))"
    "Scale (query ?mem) = Finite 0"
    "known_metrics (connector ?mem) (Series (query ?mem))"
    "\<exists>s\<in>set (Series (query ?mem)). Metric s \<noteq> None"
    "\<forall>v\<in>set [''group,min,1.5'']. 2 \<le> commas v"
    by (simp_all add: sample_memory_def sample_query_def known_metrics_def resolvable_def lookup_metric_def
        cpu_serie_def gone_serie_def mem_serie_def sample_connector_def sample_catalog_def
        commas_def)
have ss: "Series (sample_query OperGroupTypeSum [cpu_serie, gone_serie, mem_serie])
      = [cpu_serie, gone_serie, mem_serie]"
    "Name (sample_query OperGroupTypeSum [cpu_serie, gone_serie, mem_serie]) = ''group''"
    "Type (sample_query OperGroupTypeSum [cpu_serie, gone_serie, mem_serie]) = OperGroupTypeSum"
    by (simp_all add: sample_query_def)
  have f: "\<forall>r<2. \<forall>v\<in>set (agg_readings (connector ?mem) (\<lambda>f d. sample_readings f d r) (Series (query ?mem))).
      finite_or_unknown v"
    unfolding q ss r by (simp add: sample_readings_def finite_or_unknown_def)
  have u: "[0..<2] = [0, Suc 0]" by (simp add: upt_rec numeral_2_eq_2)
  from sum_zero_for_unknown [OF h f, of "[]" sampleParseFloat 0 10 1]
  obtain res where "fst (GetPlots (spec_env sample_readings 2 (\<lambda>g s t. Inr [''group,min,1.5'']) sampleParseFloat)
              0 10 1 [] ?mem) = Inr res"
    and "samples res ''group'' = Some [Finite (sum_list (map known_value
           [sample_readings ''/var/lib/rrd/host1/cpu.rrd'' ''value'' 0,
            sample_readings ''/var/lib/rrd/host1/mem.rrd'' ''value'' 0])),
         Finite (sum_list (map known_value
           [sample_readings ''/var/lib/rrd/host1/cpu.rrd'' ''value'' (Suc 0),
            sample_readings ''/var/lib/rrd/host1/mem.rrd'' ''value'' (Suc 0)]))]"
    unfolding q ss r u by auto
  then show ?thesis
    by (auto simp: sample_readings_def known_value_def)
qed

end
